theory Spec2Isabelle
  imports Complex_Main
begin

section \<open>Pair sampling and data splitting of the paired-frame pipeline\<close>

text \<open>
  A shallow embedding of \<^verbatim>\<open>capstone_project/preprocessing.py\<close> and of the constant
  \<^verbatim>\<open>TIME_BUCKETS\<close> of \<^verbatim>\<open>main.py\<close>. Time differences and frame indices are Python
  integers and are modelled as \<^typ>\<open>int\<close>; counts (number of frames, of stacked frames,
  of pairs, of passes) are modelled as \<^typ>\<open>nat\<close> and converted with \<^const>\<open>int\<close> where the
  source subtracts. Every exception the source or the called library raises is a value.
\<close>

datatype py_error =
  AssertionError | KeyError | IndexError | ValueError | TypeError
  | FileNotFoundError | ZeroDivisionError | UnpicklingError

subsection \<open>\<^verbatim>\<open>get_time_buckets_dict\<close>\<close>

text \<open>The inner loop \<^verbatim>\<open>for time in bucket: buckets_dict[time] = bucket_idx\<close>.\<close>

fun bucket_loop :: "int list \<Rightarrow> nat \<Rightarrow> (int \<rightharpoonup> nat) \<Rightarrow> (int \<rightharpoonup> nat)" where
  "bucket_loop [] bucket_idx buckets_dict = buckets_dict"
| "bucket_loop (time # bucket) bucket_idx buckets_dict =
     bucket_loop bucket bucket_idx (buckets_dict(time \<mapsto> bucket_idx))"

text \<open>The outer loop \<^verbatim>\<open>for bucket in time_buckets: ...; bucket_idx += 1\<close>.\<close>

fun time_buckets_loop :: "int list list \<Rightarrow> nat \<Rightarrow> (int \<rightharpoonup> nat) \<Rightarrow> (int \<rightharpoonup> nat)" where
  "time_buckets_loop [] bucket_idx buckets_dict = buckets_dict"
| "time_buckets_loop (bucket # time_buckets) bucket_idx buckets_dict =
     time_buckets_loop time_buckets (bucket_idx + 1) (bucket_loop bucket bucket_idx buckets_dict)"

definition get_time_buckets_dict :: "int list list \<Rightarrow> (int \<rightharpoonup> nat)" where
  "get_time_buckets_dict time_buckets = time_buckets_loop time_buckets 0 Map.empty"

text \<open>
  \<^verbatim>\<open>np.hstack([bucket for bucket in time_buckets]).max()\<close>: numpy raises \<^verbatim>\<open>ValueError\<close>
  when there is no bucket to concatenate and when the concatenation has no element.
\<close>

definition max_frame_diff_of :: "int list list \<Rightarrow> py_error + int" where
  "max_frame_diff_of time_buckets =
     (case concat time_buckets of
        [] \<Rightarrow> Inl ValueError
      | t # ts \<Rightarrow> Inr (fold max ts t))"

text \<open>\<^verbatim>\<open>TIME_BUCKETS\<close> of the entry script: \<^verbatim>\<open>[[0], [1], [2], [3,4], list(range(5,11,1)), list(range(11,20,1))]\<close>.\<close>

definition TIME_BUCKETS :: "int list list" where
  "TIME_BUCKETS = [[0], [1], [2], [3, 4], [5 .. 10], [11 .. 19]]"

subsection \<open>\<^verbatim>\<open>get_frame_differences_dict\<close>\<close>

text \<open>
  The \<^verbatim>\<open>while end_frame <= num_total_frames-1\<close> loop of one difference;
  \<^verbatim>\<open>differences_dict.setdefault(diff, []).append(...)\<close> creates the key on the first
  append only.
\<close>

function frame_pairs_while ::
  "nat \<Rightarrow> int \<Rightarrow> int \<Rightarrow> int \<Rightarrow> (int \<rightharpoonup> (int \<times> int) list) \<Rightarrow> (int \<rightharpoonup> (int \<times> int) list)" where
  "frame_pairs_while num_total_frames diff start_frame end_frame differences_dict =
     (if end_frame \<le> int num_total_frames - 1
      then frame_pairs_while num_total_frames diff (start_frame + 1) (end_frame + 1)
             (differences_dict(diff \<mapsto>
                (case differences_dict diff of None \<Rightarrow> [] | Some l \<Rightarrow> l) @ [(start_frame, end_frame)]))
      else differences_dict)"
  by pat_completeness auto
termination
  by (relation "measure (\<lambda>(n, d, s, e, m). nat (int n - e))") auto

declare frame_pairs_while.simps [simp del]

fun frame_differences_for ::
  "nat \<Rightarrow> nat \<Rightarrow> int list \<Rightarrow> (int \<rightharpoonup> (int \<times> int) list) \<Rightarrow> (int \<rightharpoonup> (int \<times> int) list)" where
  "frame_differences_for num_total_frames num_frames_in_stack [] differences_dict = differences_dict"
| "frame_differences_for num_total_frames num_frames_in_stack (diff # differences) differences_dict =
     frame_differences_for num_total_frames num_frames_in_stack differences
       (frame_pairs_while num_total_frames diff
          (int num_frames_in_stack - 1) (int num_frames_in_stack - 1 + diff) differences_dict)"

definition get_frame_differences_dict ::
  "nat \<Rightarrow> int \<Rightarrow> nat \<Rightarrow> (int \<rightharpoonup> (int \<times> int) list)" where
  "get_frame_differences_dict num_total_frames max_frame_diff num_frames_in_stack =
     frame_differences_for num_total_frames num_frames_in_stack [0 .. max_frame_diff] Map.empty"

subsection \<open>Arrays\<close>

text \<open>
  The loaded video array has shape \<^verbatim>\<open>(num_videos, num_frames) + frame_shape\<close>; for Moving
  MNIST \<^verbatim>\<open>frame_shape = (H, W)\<close>. The frames themselves are not inspected by the code,
  so a frame is a value of a type variable. The shape is kept beside the nested list,
  since numpy keeps it also when an axis is empty.
\<close>

record 'f video_array =
  dim0 :: nat
  dim1 :: nat
  frame_shape :: "nat list"
  rows :: "'f list list"

text \<open>An array is rectangular: \<^verbatim>\<open>dim0\<close> rows of \<^verbatim>\<open>dim1\<close> frames each.\<close>

definition wf_video_array :: "'f video_array \<Rightarrow> bool" where
  "wf_video_array a \<longleftrightarrow>
     length (rows a) = dim0 a \<and> list_all (\<lambda>r. length r = dim1 a) (rows a)"

text \<open>\<^verbatim>\<open>data.swapaxes(0,1)\<close>.\<close>

definition swapaxes01 :: "'f video_array \<Rightarrow> 'f video_array" where
  "swapaxes01 a =
     \<lparr>dim0 = dim1 a, dim1 = dim0 a, frame_shape = frame_shape a,
      rows = map (\<lambda>j. map (\<lambda>r. r ! j) (rows a)) [0 ..< dim1 a]\<rparr>"

text \<open>
  The array of pairs: each item is \<^verbatim>\<open>[row[target1_frames], row[target2_frames]]\<close>, two
  stacks of frames. \<^verbatim>\<open>np.array([])\<close> has shape \<^verbatim>\<open>(0,)\<close>.
\<close>

record 'f pairs_array =
  shape :: "nat list"
  items :: "('f list \<times> 'f list) list"

definition np_empty :: "'f pairs_array" where
  "np_empty = \<lparr>shape = [0], items = []\<rparr>"

text \<open>
  \<^verbatim>\<open>np.array(video_pairs)\<close> on a list of pairs of arrays of shape
  \<^verbatim>\<open>(stack_len,) + frame_shape\<close>; an empty list gives shape \<^verbatim>\<open>(0,)\<close>.
\<close>

definition np_array_pairs :: "nat list \<Rightarrow> ('f list \<times> 'f list) list \<Rightarrow> 'f pairs_array" where
  "np_array_pairs fshape video_pairs =
     (case video_pairs of
        [] \<Rightarrow> np_empty
      | p # _ \<Rightarrow> \<lparr>shape = [length video_pairs, 2, length (fst p)] @ fshape, items = video_pairs\<rparr>)"

text \<open>\<^verbatim>\<open>X.size\<close>: the product of the shape.\<close>

definition np_size :: "'f pairs_array \<Rightarrow> nat" where
  "np_size a = prod_list (shape a)"

text \<open>
  \<^verbatim>\<open>np.vstack((X, video_pairs))\<close> for arrays of at least two dimensions: concatenation
  along the first axis, \<^verbatim>\<open>ValueError\<close> when the other dimensions differ. The code calls
  it only when \<^verbatim>\<open>X.size\<close> is not zero.
\<close>

definition np_vstack :: "'f pairs_array \<Rightarrow> 'f pairs_array \<Rightarrow> py_error + 'f pairs_array" where
  "np_vstack a b =
     (case (shape a, shape b) of
        (n # m # ra, n' # m' # rb) \<Rightarrow>
          if m # ra = m' # rb
          then Inr \<lparr>shape = (n + n') # m # ra, items = items a @ items b\<rparr>
          else Inl ValueError
      | _ \<Rightarrow> Inl ValueError)"

text \<open>
  \<^verbatim>\<open>row[target_frames]\<close>: numpy indexing of the first axis by a list of integers. A
  negative index counts from the end; an index outside \<^verbatim>\<open>[-n, n)\<close> raises
  \<^verbatim>\<open>IndexError\<close>.
\<close>

definition np_take :: "'f list \<Rightarrow> int list \<Rightarrow> py_error + 'f list" where
  "np_take row idxs =
     (let n = int (length row)
      in if list_all (\<lambda>i. - n \<le> i \<and> i < n) idxs
         then Inr (map (\<lambda>i. row ! nat (if i < 0 then i + n else i)) idxs)
         else Inl IndexError)"

subsection \<open>The random generator\<close>

text \<open>
  \<^verbatim>\<open>np.random\<close> is library code: its global state is a value of a type variable, and
  \<^verbatim>\<open>np.random.seed\<close> and the drawing done by \<^verbatim>\<open>np.random.choice\<close> are parameters.
  \<^verbatim>\<open>np.random.choice(a, size=k)\<close> with an integer \<^verbatim>\<open>a\<close> raises \<^verbatim>\<open>ValueError\<close> when
  \<^verbatim>\<open>a\<close> is zero and samples are requested.
\<close>

record 'g np_random =
  seed :: "nat \<Rightarrow> 'g"
  draw :: "'g \<Rightarrow> nat \<Rightarrow> nat \<Rightarrow> nat list \<times> 'g"

definition np_random_choice :: "'g np_random \<Rightarrow> 'g \<Rightarrow> nat \<Rightarrow> nat \<Rightarrow> py_error + (nat list \<times> 'g)" where
  "np_random_choice rnd g a k =
     (if a = 0 \<and> 0 < k then Inl ValueError else Inr (draw rnd g a k))"

text \<open>What numpy documents of the draw: \<^verbatim>\<open>k\<close> values, each below \<^verbatim>\<open>a\<close>.\<close>

definition draw_ok :: "'g np_random \<Rightarrow> bool" where
  "draw_ok rnd \<longleftrightarrow>
     (\<forall>g a k. length (fst (draw rnd g a k)) = k \<and> (0 < a \<longrightarrow> list_all (\<lambda>i. i < a) (fst (draw rnd g a k))))"

text \<open>
  A small generator with which the theorems below are instantiated at concrete inputs
  (a counter, not numpy's Mersenne Twister).
\<close>

definition counter_rnd :: "nat np_random" where
  "counter_rnd = \<lparr>seed = (\<lambda>s. s), draw = (\<lambda>g a k. (map (\<lambda>i. (g + i) mod a) [0 ..< k], g + k))\<rparr>"

subsection \<open>\<^verbatim>\<open>get_samples_at_difference\<close>\<close>

text \<open>
  The body of the inner loop for one \<^verbatim>\<open>idx_pair\<close>: the candidate is read, the two lists
  of frame indices are built with \<^verbatim>\<open>range(last - num_frames_in_stack + 1, last + 1)\<close>,
  the row is indexed twice, and the bucket is looked up.
\<close>

definition make_sample ::
  "'f list \<Rightarrow> nat \<Rightarrow> (int \<times> int) list \<Rightarrow> nat \<Rightarrow> (int \<rightharpoonup> nat) \<Rightarrow> int
     \<Rightarrow> py_error + (('f list \<times> 'f list) \<times> nat)" where
  "make_sample row idx_pair candidates num_frames_in_stack time_buckets_dict difference =
     (if \<not> idx_pair < length candidates then Inl IndexError
      else
        let target1_last_frame = fst (candidates ! idx_pair);
            target2_last_frame = snd (candidates ! idx_pair);
            target1_frames = [target1_last_frame - int num_frames_in_stack + 1 .. target1_last_frame];
            target2_frames = [target2_last_frame - int num_frames_in_stack + 1 .. target2_last_frame]
        in case np_take row target1_frames of
             Inl e \<Rightarrow> Inl e
           | Inr stack1 \<Rightarrow>
               (case np_take row target2_frames of
                  Inl e \<Rightarrow> Inl e
                | Inr stack2 \<Rightarrow>
                    (case time_buckets_dict difference of
                       None \<Rightarrow> Inl KeyError
                     | Some bucket \<Rightarrow> Inr ((stack1, stack2), bucket))))"

text \<open>\<^verbatim>\<open>for idx_pair in idx_pairs\<close>, appending to \<^verbatim>\<open>video_pairs\<close> and \<^verbatim>\<open>y\<close>.\<close>

fun idx_pairs_loop ::
  "'f list \<Rightarrow> nat list \<Rightarrow> (int \<times> int) list \<Rightarrow> nat \<Rightarrow> (int \<rightharpoonup> nat) \<Rightarrow> int
     \<Rightarrow> ('f list \<times> 'f list) list \<times> nat list
     \<Rightarrow> py_error + (('f list \<times> 'f list) list \<times> nat list)" where
  "idx_pairs_loop row [] candidates nfs tbd difference acc = Inr acc"
| "idx_pairs_loop row (idx_pair # idx_pairs) candidates nfs tbd difference acc =
     (case make_sample row idx_pair candidates nfs tbd difference of
        Inl e \<Rightarrow> Inl e
      | Inr (pair, bucket) \<Rightarrow>
          idx_pairs_loop row idx_pairs candidates nfs tbd difference
            (fst acc @ [pair], snd acc @ [bucket]))"

text \<open>\<^verbatim>\<open>for row in data\<close>.\<close>

fun rows_loop ::
  "'f list list \<Rightarrow> nat list \<Rightarrow> (int \<times> int) list \<Rightarrow> nat \<Rightarrow> (int \<rightharpoonup> nat) \<Rightarrow> int
     \<Rightarrow> ('f list \<times> 'f list) list \<times> nat list
     \<Rightarrow> py_error + (('f list \<times> 'f list) list \<times> nat list)" where
  "rows_loop [] idx_pairs candidates nfs tbd difference acc = Inr acc"
| "rows_loop (row # data) idx_pairs candidates nfs tbd difference acc =
     (case idx_pairs_loop row idx_pairs candidates nfs tbd difference acc of
        Inl e \<Rightarrow> Inl e
      | Inr acc' \<Rightarrow> rows_loop data idx_pairs candidates nfs tbd difference acc')"

text \<open>
  \<^verbatim>\<open>np.random.seed(1337)\<close> followed by
  \<^verbatim>\<open>np.random.choice(len(candidates), size=num_pairs_per_example)\<close>: the incoming state
  of the generator is overwritten.
\<close>

definition select_idx_pairs ::
  "'g np_random \<Rightarrow> 'g \<Rightarrow> (int \<times> int) list \<Rightarrow> nat \<Rightarrow> py_error + (nat list \<times> 'g)" where
  "select_idx_pairs rnd g candidates num_pairs_per_example =
     np_random_choice rnd (seed rnd 1337) (length candidates) num_pairs_per_example"

definition get_samples_at_difference ::
  "'g np_random \<Rightarrow> 'f video_array \<Rightarrow> int \<Rightarrow> (int \<rightharpoonup> (int \<times> int) list) \<Rightarrow> nat \<Rightarrow> nat
     \<Rightarrow> (int \<rightharpoonup> nat) \<Rightarrow> 'g \<Rightarrow> py_error + (('f pairs_array \<times> nat list) \<times> 'g)" where
  "get_samples_at_difference rnd data difference differences_dict num_pairs_per_example
       num_frames_in_stack time_buckets_dict g =
     (case differences_dict difference of
        None \<Rightarrow> Inl KeyError
      | Some candidates \<Rightarrow>
          (case select_idx_pairs rnd g candidates num_pairs_per_example of
             Inl e \<Rightarrow> Inl e
           | Inr (idx_pairs, g') \<Rightarrow>
               (case rows_loop (rows data) idx_pairs candidates num_frames_in_stack
                       time_buckets_dict difference ([], []) of
                  Inl e \<Rightarrow> Inl e
                | Inr (video_pairs, y) \<Rightarrow>
                    Inr ((np_array_pairs (frame_shape data) video_pairs, y), g'))))"

subsection \<open>Paths and files\<close>

text \<open>\<^verbatim>\<open>str.split(sep)\<close> for a separator of one character, and \<^verbatim>\<open>sep.join(parts)\<close>.\<close>

fun py_split :: "char \<Rightarrow> string \<Rightarrow> string list" where
  "py_split c [] = [[]]"
| "py_split c (x # xs) =
     (if x = c then [] # py_split c xs
      else (x # hd (py_split c xs)) # tl (py_split c xs))"

fun py_join :: "string \<Rightarrow> string list \<Rightarrow> string" where
  "py_join sep [] = []"
| "py_join sep [p] = p"
| "py_join sep (p # q # ps) = p @ sep @ py_join sep (q # ps)"

text \<open>\<^verbatim>\<open>os.path.join\<close> of \<^verbatim>\<open>posixpath\<close>: an absolute component discards what precedes it.\<close>

definition path_join_step :: "string \<Rightarrow> string \<Rightarrow> string" where
  "path_join_step path b =
     (if b \<noteq> [] \<and> hd b = CHR ''/'' then b
      else if path = [] \<or> last path = CHR ''/'' then path @ b
      else path @ ''/'' @ b)"

definition os_path_join :: "string \<Rightarrow> string list \<Rightarrow> string" where
  "os_path_join a p = foldl path_join_step a p"

text \<open>\<^verbatim>\<open>filename = '.'.join(filename.split('.')[:-1])\<close>.\<close>

definition strip_extension :: "string \<Rightarrow> string" where
  "strip_extension filename = py_join ''.'' (butlast (py_split CHR ''.'' filename))"

definition X_path_of :: "string \<Rightarrow> string \<Rightarrow> string \<Rightarrow> string" where
  "X_path_of project_dir data_dir filename =
     os_path_join project_dir [data_dir, strip_extension filename @ ''_X.pkl'']"

definition y_path_of :: "string \<Rightarrow> string \<Rightarrow> string \<Rightarrow> string" where
  "y_path_of project_dir data_dir filename =
     os_path_join project_dir [data_dir, strip_extension filename @ ''_y.pkl'']"

text \<open>
  What the process sees of the outside: the files, by path, and the global state of
  \<^verbatim>\<open>np.random\<close>. A file holds a saved numpy array or a pickled object.
\<close>

datatype 'f pyobj = PairsArray "'f pairs_array" | LabelsArray "nat list"

datatype 'f disk_file = NpyFile "'f video_array" | PickleFile "'f pyobj"

record ('f, 'g) world =
  files :: "string \<rightharpoonup> 'f disk_file"
  rng :: 'g

definition path_exists :: "('f, 'g) world \<Rightarrow> string \<Rightarrow> bool" where
  "path_exists w path \<longleftrightarrow> files w path \<noteq> None"

text \<open>
  \<^verbatim>\<open>load_data\<close>: \<^verbatim>\<open>np.load\<close> of the joined path, then \<^verbatim>\<open>swapaxes(0,1)\<close>. \<^verbatim>\<open>np.load\<close>
  fails on a missing file, and is taken to refuse a pickle file.
\<close>

definition load_data :: "string \<Rightarrow> string \<Rightarrow> string \<Rightarrow> ('f, 'g) world \<Rightarrow> py_error + 'f video_array" where
  "load_data project_dir data_dir filename w =
     (case files w (os_path_join project_dir [data_dir, filename]) of
        None \<Rightarrow> Inl FileNotFoundError
      | Some (NpyFile a) \<Rightarrow> Inr (swapaxes01 a)
      | Some (PickleFile obj) \<Rightarrow> Inl ValueError)"

text \<open>
  Modelled from the spec: \<^verbatim>\<open>save_object\<close> and \<^verbatim>\<open>load_object\<close> of
  \<^verbatim>\<open>capstone_project/utils.py\<close>, which is not among the sources. The spec says that the
  generated arrays are persisted to disk by ad hoc object pickling under the given path
  and read back from it: saving stores the object at the path, loading returns the
  object stored there.
\<close>

definition save_object :: "'f pyobj \<Rightarrow> string \<Rightarrow> ('f, 'g) world \<Rightarrow> ('f, 'g) world" where
  "save_object obj path w = w\<lparr>files := (files w)(path \<mapsto> PickleFile obj)\<rparr>"

definition load_object :: "string \<Rightarrow> ('f, 'g) world \<Rightarrow> py_error + 'f pyobj" where
  "load_object path w =
     (case files w path of
        None \<Rightarrow> Inl FileNotFoundError
      | Some (PickleFile obj) \<Rightarrow> Inr obj
      | Some (NpyFile a) \<Rightarrow> Inl UnpicklingError)"

subsection \<open>\<^verbatim>\<open>get_paired_data\<close>\<close>

text \<open>
  The body of \<^verbatim>\<open>for difference in range(max_frame_diff+1)\<close>:
  \<^verbatim>\<open>X = np.vstack((X, video_pairs)) if X.size else video_pairs\<close> and
  \<^verbatim>\<open>y = np.append(y, targets)\<close>.
\<close>

fun differences_loop ::
  "'g np_random \<Rightarrow> 'f video_array \<Rightarrow> int list \<Rightarrow> (int \<rightharpoonup> (int \<times> int) list) \<Rightarrow> nat \<Rightarrow> nat
     \<Rightarrow> (int \<rightharpoonup> nat) \<Rightarrow> 'f pairs_array \<times> nat list \<times> 'g
     \<Rightarrow> py_error + ('f pairs_array \<times> nat list \<times> 'g)" where
  "differences_loop rnd data [] dd num_pairs nfs tbd acc = Inr acc"
| "differences_loop rnd data (difference # differences) dd num_pairs nfs tbd (X, y, g) =
     (case get_samples_at_difference rnd data difference dd num_pairs nfs tbd g of
        Inl e \<Rightarrow> Inl e
      | Inr ((video_pairs, targets), g') \<Rightarrow>
          (case (if np_size X \<noteq> 0 then np_vstack X video_pairs else Inr video_pairs) of
             Inl e \<Rightarrow> Inl e
           | Inr X' \<Rightarrow>
               differences_loop rnd data differences dd num_pairs nfs tbd (X', y @ targets, g')))"

text \<open>\<^verbatim>\<open>for i in range(num_passes_for_generation)\<close>.\<close>

fun passes_loop ::
  "'g np_random \<Rightarrow> 'f video_array \<Rightarrow> nat list \<Rightarrow> int \<Rightarrow> (int \<rightharpoonup> (int \<times> int) list) \<Rightarrow> nat \<Rightarrow> nat
     \<Rightarrow> (int \<rightharpoonup> nat) \<Rightarrow> 'f pairs_array \<times> nat list \<times> 'g
     \<Rightarrow> py_error + ('f pairs_array \<times> nat list \<times> 'g)" where
  "passes_loop rnd data [] max_frame_diff dd num_pairs nfs tbd acc = Inr acc"
| "passes_loop rnd data (i # passes) max_frame_diff dd num_pairs nfs tbd acc =
     (case differences_loop rnd data [0 .. max_frame_diff] dd num_pairs nfs tbd acc of
        Inl e \<Rightarrow> Inl e
      | Inr acc' \<Rightarrow> passes_loop rnd data passes max_frame_diff dd num_pairs nfs tbd acc')"

text \<open>
  The generation branch (from \<^verbatim>\<open>'Did not find existing data. Creating it...'\<close> on).
  When a bucket is empty, \<^verbatim>\<open>np.hstack\<close> has produced a float array, the maximum is a
  \<^verbatim>\<open>numpy.float64\<close>, and \<^verbatim>\<open>range(max_frame_diff+1)\<close> in
  \<^verbatim>\<open>get_frame_differences_dict\<close> raises \<^verbatim>\<open>TypeError\<close>.
\<close>

definition generate_pairs ::
  "'g np_random \<Rightarrow> 'f video_array \<Rightarrow> int list list \<Rightarrow> int \<Rightarrow> nat \<Rightarrow> nat \<Rightarrow> nat \<Rightarrow> 'g
     \<Rightarrow> py_error + ('f pairs_array \<times> nat list \<times> 'g)" where
  "generate_pairs rnd data time_buckets max_frame_diff num_passes_for_generation
       num_pairs_per_example num_frames_in_stack g =
     (let time_buckets_dict = get_time_buckets_dict time_buckets
      in if [] \<in> set time_buckets then Inl TypeError
         else
           let differences_dict =
                 get_frame_differences_dict (dim1 data) max_frame_diff num_frames_in_stack
           in passes_loop rnd data [0 ..< num_passes_for_generation] max_frame_diff
                differences_dict num_pairs_per_example num_frames_in_stack time_buckets_dict
                (np_empty, [], g))"

text \<open>
  \<^verbatim>\<open>get_paired_data\<close>. The call \<^verbatim>\<open>imshow(data, mean, std, project_dir, plots_dir)\<close> goes
  to \<^verbatim>\<open>capstone_project/utils.py\<close>, which is not among the sources; it plots and has no
  part in the data or the cache, and is left out. The result is the returned pair
  \<^verbatim>\<open>(X, y)\<close> and the world after the call.
\<close>

definition get_paired_data ::
  "'g np_random \<Rightarrow> string \<Rightarrow> string \<Rightarrow> string \<Rightarrow> string \<Rightarrow> int list list \<Rightarrow> nat \<Rightarrow> nat \<Rightarrow> nat
     \<Rightarrow> bool \<Rightarrow> ('f, 'g) world \<Rightarrow> py_error + (('f pyobj \<times> 'f pyobj) \<times> ('f, 'g) world)" where
  "get_paired_data rnd project_dir data_dir plots_dir filename time_buckets
       num_passes_for_generation num_pairs_per_example num_frames_in_stack force w =
     (case load_data project_dir data_dir filename w of
        Inl e \<Rightarrow> Inl e
      | Inr data \<Rightarrow>
          let num_total_frames = dim1 data
          in case max_frame_diff_of time_buckets of
               Inl e \<Rightarrow> Inl e
             | Inr max_frame_diff \<Rightarrow>
                 if \<not> max_frame_diff \<le> int num_total_frames - int num_frames_in_stack
                 then Inl AssertionError
                 else
                   let X_path = X_path_of project_dir data_dir filename;
                       y_path = y_path_of project_dir data_dir filename
                   in if \<not> force \<and> path_exists w X_path \<and> path_exists w y_path
                      then
                        (case load_object X_path w of
                           Inl e \<Rightarrow> Inl e
                         | Inr X \<Rightarrow>
                             (case load_object y_path w of
                                Inl e \<Rightarrow> Inl e
                              | Inr y \<Rightarrow> Inr ((X, y), w)))
                      else
                        (case generate_pairs rnd data time_buckets max_frame_diff
                                num_passes_for_generation num_pairs_per_example
                                num_frames_in_stack (rng w) of
                           Inl e \<Rightarrow> Inl e
                         | Inr (X, y, g') \<Rightarrow>
                             Inr ((PairsArray X, LabelsArray y),
                                  save_object (LabelsArray y) y_path
                                    (save_object (PairsArray X) X_path (w\<lparr>rng := g'\<rparr>)))))"

subsection \<open>The split sizes of \<^verbatim>\<open>generate_dataloader\<close>\<close>

text \<open>
  Lines 146 to 149. The fractions are read as real numbers; \<^verbatim>\<open>len(dataset)\<close> is a
  natural number; a float division by zero raises \<^verbatim>\<open>ZeroDivisionError\<close>. The result
  is \<^verbatim>\<open>(num_train, num_val, num_test)\<close>, the list handed to \<^verbatim>\<open>random_split\<close>.
\<close>

definition split_sizes :: "nat \<Rightarrow> real \<Rightarrow> real \<Rightarrow> py_error + (int \<times> int \<times> int)" where
  "split_sizes len_dataset test_size val_size =
     (let num_test = \<lfloor>test_size * real len_dataset\<rfloor>;
          num_train_val = int len_dataset - num_test
      in if 1 - test_size = 0 then Inl ZeroDivisionError
         else
           let num_val = \<lfloor>real_of_int num_train_val * val_size / (1 - test_size)\<rfloor>;
               num_train = num_train_val - num_val
           in Inr (num_train, num_val, num_test))"

text \<open>
  The code computes the two floors in 64-bit floating point, where the rounding of the
  product and of the quotient can move one item between \<^verbatim>\<open>num_val\<close> and \<^verbatim>\<open>num_train\<close>
  with respect to the real numbers, and \<^verbatim>\<open>int(np.floor(...))\<close> raises on a value that is
  not finite. The same lines with the two counts left open, whatever arithmetic
  computes them: \<^verbatim>\<open>test_count\<close> stands for \<^verbatim>\<open>int(np.floor(test_size*len(dataset)))\<close> and
  \<^verbatim>\<open>val_count\<close> for \<^verbatim>\<open>int(np.floor(num_train_val*val_size/(1 - test_size)))\<close>.
\<close>

definition split_sizes_with :: "(nat \<Rightarrow> int) \<Rightarrow> (int \<Rightarrow> int) \<Rightarrow> nat \<Rightarrow> int \<times> int \<times> int" where
  "split_sizes_with test_count val_count len_dataset =
     (let num_test = test_count len_dataset;
          num_train_val = int len_dataset - num_test;
          num_val = val_count num_train_val;
          num_train = num_train_val - num_val
      in (num_train, num_val, num_test))"

subsection \<open>Predicates used in the statements\<close>

text \<open>Every candidate pair of a dictionary starts at \<^verbatim>\<open>lo\<close> or later and ends at \<^verbatim>\<open>hi\<close> or earlier.\<close>

definition pairs_within :: "int \<Rightarrow> int \<Rightarrow> (int \<rightharpoonup> (int \<times> int) list) \<Rightarrow> bool" where
  "pairs_within lo hi d \<longleftrightarrow>
     (\<forall>k l. d k = Some l \<longrightarrow> (\<forall>p \<in> set l. lo \<le> fst p \<and> snd p \<le> hi))"

text \<open>
  What the body of the inner loop emits for the row and the selected position
  \<^verbatim>\<open>ri = (row, idx_pair)\<close>, as \<^verbatim>\<open>pb = ((stack1, stack2), label)\<close>: the position is one of the
  candidate list, each stack is the row indexed the way numpy does it (a negative index
  counts from the end of the row) by the \<^verbatim>\<open>nfs\<close> indices that end at the candidate's
  index, and the label is the bucket of the difference.
\<close>

definition sample_indexed ::
  "(int \<times> int) list \<Rightarrow> nat \<Rightarrow> (int \<rightharpoonup> nat) \<Rightarrow> int \<Rightarrow> 'f list \<times> nat
     \<Rightarrow> ('f list \<times> 'f list) \<times> nat \<Rightarrow> bool" where
  "sample_indexed candidates nfs tbd d ri pb \<longleftrightarrow>
     (let row = fst ri; idx_pair = snd ri;
          stack1 = fst (fst pb); stack2 = snd (fst pb); label = snd pb;
          last1 = fst (candidates ! idx_pair); last2 = snd (candidates ! idx_pair)
      in idx_pair < length candidates \<and>
         np_take row [last1 - int nfs + 1 .. last1] = Inr stack1 \<and>
         np_take row [last2 - int nfs + 1 .. last2] = Inr stack2 \<and>
         length stack1 = nfs \<and> length stack2 = nfs \<and>
         tbd d = Some label)"

text \<open>
  Both indices of every candidate pair leave room for a stack of \<^verbatim>\<open>nfs\<close> frames before
  them: they are \<^verbatim>\<open>nfs - 1\<close> or more.
\<close>

definition candidates_allow_stack :: "nat \<Rightarrow> (int \<times> int) list \<Rightarrow> bool" where
  "candidates_allow_stack nfs candidates \<longleftrightarrow>
     list_all (\<lambda>p. int nfs - 1 \<le> fst p \<and> int nfs - 1 \<le> snd p) candidates"

text \<open>
  The sample \<^verbatim>\<open>pb = ((stack1, stack2), label)\<close> of the row and the selected position
  \<^verbatim>\<open>ri = (row, idx_pair)\<close> is made of contiguous runs: each stack is the run of \<^verbatim>\<open>nfs\<close>
  consecutive frames of the row that starts at frame \<^verbatim>\<open>last - nfs + 1\<close> and ends at frame
  \<^verbatim>\<open>last\<close>, the candidate's index, and the label is the bucket of the difference.
\<close>

definition sample_is_run ::
  "(int \<times> int) list \<Rightarrow> nat \<Rightarrow> (int \<rightharpoonup> nat) \<Rightarrow> int \<Rightarrow> 'f list \<times> nat
     \<Rightarrow> ('f list \<times> 'f list) \<times> nat \<Rightarrow> bool" where
  "sample_is_run candidates nfs tbd d ri pb \<longleftrightarrow>
     (let row = fst ri; idx_pair = snd ri;
          stack1 = fst (fst pb); stack2 = snd (fst pb); label = snd pb;
          last1 = fst (candidates ! idx_pair); last2 = snd (candidates ! idx_pair)
      in idx_pair < length candidates \<and>
         0 \<le> last1 - int nfs + 1 \<and> 0 \<le> last2 - int nfs + 1 \<and>
         stack1 = take nfs (drop (nat (last1 - int nfs + 1)) row) \<and>
         stack2 = take nfs (drop (nat (last2 - int nfs + 1)) row) \<and>
         length stack1 = nfs \<and> length stack2 = nfs \<and>
         tbd d = Some label)"

text \<open>
  The accumulated arrays hold \<^verbatim>\<open>k\<close> samples: \<^verbatim>\<open>y\<close> has shape \<^verbatim>\<open>(k,)\<close> and \<^verbatim>\<open>X\<close> has
  \<^verbatim>\<open>k\<close> items and shape \<^verbatim>\<open>(k, 2, nfs) + fshape\<close>, or shape \<^verbatim>\<open>(0,)\<close> when there is none.
\<close>

definition holds_samples :: "nat list \<Rightarrow> nat \<Rightarrow> nat \<Rightarrow> 'f pairs_array \<Rightarrow> nat list \<Rightarrow> bool" where
  "holds_samples fshape nfs k X y \<longleftrightarrow>
     length y = k \<and> length (items X) = k \<and>
     shape X = (if k = 0 then [0] else [k, 2, nfs] @ fshape)"

text \<open>
  The two cases of \<^const>\<open>path_join_step\<close>: a component that starts with the separator is
  absolute; otherwise it is appended to the path, after a separator when the path does
  not end with one.
\<close>

definition is_abs :: "string \<Rightarrow> bool" where
  "is_abs b \<longleftrightarrow> b \<noteq> [] \<and> hd b = CHR ''/''"

definition with_sep :: "string \<Rightarrow> string" where
  "with_sep path = (if path = [] \<or> last path = CHR ''/'' then path else path @ ''/'')"

subsection \<open>Concrete inputs\<close>

text \<open>
  A file of three frames of one video (the file stores the frame axis first), the array
  \<^verbatim>\<open>load_data\<close> makes of it, a world that holds only this file, and the world after
  the pairs were generated from it with the buckets \<^verbatim>\<open>[[0], [1]]\<close>, one pass, one pair
  per example and stacks of one frame. Frames are named by numbers.
\<close>

definition example_npy :: "nat video_array" where
  "example_npy = \<lparr>dim0 = 3, dim1 = 1, frame_shape = [2, 2], rows = [[10], [11], [12]]\<rparr>"

definition example_data :: "nat video_array" where
  "example_data = \<lparr>dim0 = 1, dim1 = 3, frame_shape = [2, 2], rows = [[10, 11, 12]]\<rparr>"

definition example_world :: "(nat, nat) world" where
  "example_world = \<lparr>files = [''/p/data/seq.npy'' \<mapsto> NpyFile example_npy], rng = 0\<rparr>"

definition example_X :: "nat pairs_array" where
  "example_X = \<lparr>shape = [2, 2, 1, 2, 2], items = [([12], [12]), ([11], [12])]\<rparr>"

definition example_y :: "nat list" where
  "example_y = [0, 1]"

definition cached_world :: "(nat, nat) world" where
  "cached_world =
     \<lparr>files = [''/p/data/seq.npy'' \<mapsto> NpyFile example_npy,
               ''/p/data/seq_X.pkl'' \<mapsto> PickleFile (PairsArray example_X),
               ''/p/data/seq_y.pkl'' \<mapsto> PickleFile (LabelsArray example_y)],
      rng = 1338\<rparr>"

section \<open>Properties\<close>

subsection \<open>The time buckets of the entry script\<close>

lemma TIME_BUCKETS_unfold:
  "TIME_BUCKETS =
     [[0], [1], [2], [3, 4], [5, 6, 7, 8, 9, 10], [11, 12, 13, 14, 15, 16, 17, 18, 19]]"
  unfolding TIME_BUCKETS_def by (simp add: upto.simps)

lemma max_frame_diff_TIME_BUCKETS: "max_frame_diff_of TIME_BUCKETS = Inr 19"
  by (simp add: TIME_BUCKETS_unfold max_frame_diff_of_def)

text \<open>
  Claim C3. For \<^verbatim>\<open>TIME_BUCKETS\<close> the maximal difference is 19, and the dictionary built by
  \<^verbatim>\<open>get_time_buckets_dict\<close> is defined on every difference from 0 to 19 and maps it to
  the index of the one bucket that contains it: the buckets partition the range.
\<close>

theorem time_buckets_partition:
  "max_frame_diff_of TIME_BUCKETS = Inr 19 \<and>
   (\<forall>d. 0 \<le> d \<and> d \<le> 19 \<longrightarrow>
      (\<exists>i. get_time_buckets_dict TIME_BUCKETS d = Some i \<and> i < length TIME_BUCKETS \<and>
           (\<forall>j < length TIME_BUCKETS. d \<in> set (TIME_BUCKETS ! j) \<longleftrightarrow> j = i)))"
proof (intro conjI allI impI)
  show "max_frame_diff_of TIME_BUCKETS = Inr 19"
    by (rule max_frame_diff_TIME_BUCKETS)
next
  fix d :: int
  assume "0 \<le> d \<and> d \<le> 19"
  then have "d \<in> set [0 .. 19]"
    by simp
  then have "d \<in> {0, 1, 2, 3, 4, 5, 6, 7, 8, 9, 10, 11, 12, 13, 14, 15, 16, 17, 18, 19}"
    by (simp add: upto.simps)
  then show "\<exists>i. get_time_buckets_dict TIME_BUCKETS d = Some i \<and> i < length TIME_BUCKETS \<and>
           (\<forall>j < length TIME_BUCKETS. d \<in> set (TIME_BUCKETS ! j) \<longleftrightarrow> j = i)"
    unfolding get_time_buckets_dict_def TIME_BUCKETS_unfold
    by (elim insertE emptyE) (simp_all add: All_less_Suc)
qed

theorem time_buckets_partition_witness:
  "(0::int) \<le> 4 \<and> (4::int) \<le> 19 \<and> get_time_buckets_dict TIME_BUCKETS 4 = Some 3"
proof -
  have range: "(0::int) \<le> 4 \<and> (4::int) \<le> 19"
    by simp
  from time_buckets_partition range
  obtain i where i: "get_time_buckets_dict TIME_BUCKETS 4 = Some i"
    and only: "\<forall>j < length TIME_BUCKETS. 4 \<in> set (TIME_BUCKETS ! j) \<longleftrightarrow> j = i"
    by blast
  have "(3::nat) < length TIME_BUCKETS" and "4 \<in> set (TIME_BUCKETS ! 3)"
    by (simp_all add: TIME_BUCKETS_unfold)
  with only have "i = 3"
    by blast
  with i range show ?thesis
    by simp
qed

subsection \<open>The candidate pairs stay inside the video\<close>

lemma frame_pairs_while_within:
  "pairs_within lo (int n - 1) d \<Longrightarrow> lo \<le> s \<Longrightarrow>
   pairs_within lo (int n - 1) (frame_pairs_while n diff s e d)"
proof (induction n diff s e d rule: frame_pairs_while.induct)
  case (1 n diff s e d)
  show ?case
  proof (cases "e \<le> int n - 1")
    case True
    have upd: "pairs_within lo (int n - 1)
            (d(diff \<mapsto> (case d diff of None \<Rightarrow> [] | Some l \<Rightarrow> l) @ [(s, e)]))"
      using "1.prems" True
      unfolding pairs_within_def
      by (auto split: option.splits if_splits) (metis fst_conv snd_conv)+
    have "lo \<le> s + 1"
      using "1.prems"(2) by simp
    with "1.IH" [OF True upd] show ?thesis
      by (subst frame_pairs_while.simps) (simp only: True if_True)
  next
    case False
    with "1.prems" show ?thesis
      by (subst frame_pairs_while.simps) simp
  qed
qed

lemma frame_differences_for_within:
  "pairs_within (int nfs - 1) (int n - 1) d \<Longrightarrow>
   pairs_within (int nfs - 1) (int n - 1) (frame_differences_for n nfs ds d)"
  by (induction ds arbitrary: d) (simp_all add: frame_pairs_while_within)

lemma get_frame_differences_dict_within:
  "pairs_within (int nfs - 1) (int n - 1) (get_frame_differences_dict n m nfs)"
  unfolding get_frame_differences_dict_def
  by (rule frame_differences_for_within) (simp add: pairs_within_def)

text \<open>
  Claim C4. For at least one frame, at least one frame in a stack and a maximal
  difference that is not negative, every pair \<^verbatim>\<open>(start_frame, end_frame)\<close> in every list of
  the dictionary returned by \<^verbatim>\<open>get_frame_differences_dict\<close> has \<^verbatim>\<open>0 <= start_frame\<close> and
  \<^verbatim>\<open>end_frame <= num_total_frames - 1\<close>.
\<close>

theorem frame_differences_in_range:
  "1 \<le> num_total_frames \<Longrightarrow> 1 \<le> num_frames_in_stack \<Longrightarrow> 0 \<le> max_frame_diff \<Longrightarrow>
   get_frame_differences_dict num_total_frames max_frame_diff num_frames_in_stack diff = Some l \<Longrightarrow>
   (start_frame, end_frame) \<in> set l \<Longrightarrow>
   0 \<le> start_frame \<and> end_frame \<le> int num_total_frames - 1"
  using get_frame_differences_dict_within [of num_frames_in_stack num_total_frames max_frame_diff]
  by (fastforce simp: pairs_within_def)

theorem frame_differences_in_range_witness:
  "(1::nat) \<le> 3 \<and> (1::nat) \<le> 1 \<and> (0::int) \<le> 1 \<and>
   get_frame_differences_dict 3 1 1 1 = Some [(0, 1), (1, 2)] \<and>
   (1, 2) \<in> set [(0, 1), (1, 2::int)] \<and> (0::int) \<le> 1 \<and> (2::int) \<le> int 3 - 1"
proof -
  have d: "get_frame_differences_dict 3 1 1 1 = Some [(0, 1), (1, 2)]"
    by (simp add: get_frame_differences_dict_def frame_pairs_while.simps upto.simps)
  have m: "(1, 2) \<in> set [(0, 1), (1, 2::int)]"
    by simp
  from frame_differences_in_range [of 3 1 1 1 "[(0, 1), (1, 2)]" 1 2, OF _ _ _ d m] d m
  show ?thesis
    by simp
qed

subsection \<open>The split sizes add up\<close>

text \<open>
  Whatever the two counts are, the three sizes add up to the size of the dataset; the
  sizes over the real numbers are one instance.
\<close>

lemma split_sizes_with_sum:
  "split_sizes_with test_count val_count n = (num_train, num_val, num_test) \<Longrightarrow>
   num_train + num_val + num_test = int n"
  by (auto simp: split_sizes_with_def Let_def)

lemma split_sizes_instance:
  "test_size \<noteq> 1 \<Longrightarrow>
   split_sizes n test_size val_size =
     Inr (split_sizes_with (\<lambda>k. \<lfloor>test_size * real k\<rfloor>)
            (\<lambda>k. \<lfloor>real_of_int k * val_size / (1 - test_size)\<rfloor>) n)"
  by (simp add: split_sizes_def split_sizes_with_def Let_def)

text \<open>
  Claim C6. For a dataset of size \<^verbatim>\<open>n\<close> and fractions for which the counts are computed
  (the division by \<^verbatim>\<open>1 - test_size\<close> is defined), the three sizes computed by
  \<^verbatim>\<open>generate_dataloader\<close> add up to \<^verbatim>\<open>n\<close>. The sum uses only the two integer
  subtractions, so it does not depend on how the two floors come out.
\<close>

theorem split_sizes_sum:
  "test_size \<noteq> 1 \<Longrightarrow>
   \<exists>num_train num_val num_test.
     split_sizes n test_size val_size = Inr (num_train, num_val, num_test) \<and>
     num_train + num_val + num_test = int n"
  by (simp add: split_sizes_def Let_def)

theorem split_sizes_sum_witness:
  "(1/5 :: real) \<noteq> 1 \<and> split_sizes 10 (1/5) (1/5) = Inr (6, 2, 2) \<and> (6::int) + 2 + 2 = int 10"
proof -
  have "(1/5 :: real) \<noteq> 1"
    by simp
  from split_sizes_sum [OF this, of 10 "1/5"] show ?thesis
    by (simp add: split_sizes_def Let_def)
qed

subsection \<open>The concrete inputs, evaluated\<close>

lemma example_swap: "swapaxes01 example_npy = example_data"
  by (simp add: swapaxes01_def example_npy_def example_data_def upt_rec)

lemma example_X_path: "X_path_of ''/p'' ''data'' ''seq.npy'' = ''/p/data/seq_X.pkl''"
  by (simp add: X_path_of_def strip_extension_def os_path_join_def path_join_step_def)

lemma example_y_path: "y_path_of ''/p'' ''data'' ''seq.npy'' = ''/p/data/seq_y.pkl''"
  by (simp add: y_path_of_def strip_extension_def os_path_join_def path_join_step_def)

lemma example_load: "load_data ''/p'' ''data'' ''seq.npy'' example_world = Inr example_data"
  by (simp add: load_data_def os_path_join_def path_join_step_def example_world_def example_swap)

lemma cached_load: "load_data ''/p'' ''data'' ''seq.npy'' cached_world = Inr example_data"
  by (simp add: load_data_def os_path_join_def path_join_step_def cached_world_def example_swap)

lemma cached_X:
  "files cached_world ''/p/data/seq_X.pkl'' = Some (PickleFile (PairsArray example_X))"
  by (simp add: cached_world_def)

lemma cached_y:
  "files cached_world ''/p/data/seq_y.pkl'' = Some (PickleFile (LabelsArray example_y))"
  by (simp add: cached_world_def)

lemma example_dim1: "dim1 example_data = 3"
  by (simp add: example_data_def)

lemma example_max: "max_frame_diff_of [[0], [1]] = Inr 1"
  by (simp add: max_frame_diff_of_def)

lemma example_max_too_large: "max_frame_diff_of [[0], [5]] = Inr 5"
  by (simp add: max_frame_diff_of_def)

subsection \<open>The assertion of \<^verbatim>\<open>get_paired_data\<close>\<close>

text \<open>No statement below the assertion raises \<^verbatim>\<open>AssertionError\<close>.\<close>

lemma np_take_no_assert: "np_take row idxs \<noteq> Inl AssertionError"
  by (simp add: np_take_def Let_def)

lemma make_sample_no_assert:
  "make_sample row i cands nfs tbd d \<noteq> Inl AssertionError"
  by (auto simp: make_sample_def Let_def np_take_no_assert split: sum.splits option.splits)

lemma idx_pairs_loop_no_assert:
  "idx_pairs_loop row is cands nfs tbd d acc \<noteq> Inl AssertionError"
  by (induction "is" arbitrary: acc) (auto simp: make_sample_no_assert split: sum.splits)

lemma rows_loop_no_assert:
  "rows_loop rs is cands nfs tbd d acc \<noteq> Inl AssertionError"
  by (induction rs arbitrary: acc) (auto simp: idx_pairs_loop_no_assert split: sum.splits)

lemma get_samples_at_difference_no_assert:
  "get_samples_at_difference rnd data d dd n nfs tbd g \<noteq> Inl AssertionError"
  by (auto simp: get_samples_at_difference_def select_idx_pairs_def np_random_choice_def
        rows_loop_no_assert split: option.splits sum.splits prod.splits if_splits)

lemma np_vstack_no_assert: "np_vstack a b \<noteq> Inl AssertionError"
  by (auto simp: np_vstack_def split: list.splits)

lemma differences_loop_no_assert:
  "differences_loop rnd data ds dd n nfs tbd acc \<noteq> Inl AssertionError"
proof (induction ds arbitrary: acc)
  case Nil
  show ?case by simp
next
  case (Cons d ds)
  obtain X y g where acc: "acc = (X, y, g)"
    by (cases acc)
  show ?case
    using Cons.IH
    by (auto simp: acc get_samples_at_difference_no_assert np_vstack_no_assert
          split: sum.splits)
qed

lemma passes_loop_no_assert:
  "passes_loop rnd data ps m dd n nfs tbd acc \<noteq> Inl AssertionError"
  by (induction ps arbitrary: acc) (auto simp: differences_loop_no_assert split: sum.splits)

lemma generate_pairs_no_assert:
  "generate_pairs rnd data tb m np n nfs g \<noteq> Inl AssertionError"
  by (simp add: generate_pairs_def Let_def passes_loop_no_assert)

lemma load_object_no_assert: "load_object path w \<noteq> Inl AssertionError"
  by (auto simp: load_object_def split: option.splits disk_file.splits)

text \<open>
  Claim C2. Once the data are loaded and the maximal difference of the time buckets is
  computed, \<^verbatim>\<open>get_paired_data\<close> raises \<^verbatim>\<open>AssertionError\<close> if and only if
  \<^verbatim>\<open>max_frame_diff > num_total_frames - num_frames_in_stack\<close>; when the maximal difference
  is at most \<^verbatim>\<open>num_total_frames - num_frames_in_stack\<close> the call does not fail on this
  check.
\<close>

theorem assertion_iff_max_diff_too_large:
  assumes "load_data project_dir data_dir filename w = Inr data"
    and "max_frame_diff_of time_buckets = Inr max_frame_diff"
  shows "get_paired_data rnd project_dir data_dir plots_dir filename time_buckets
           num_passes_for_generation num_pairs_per_example num_frames_in_stack force w
         = Inl AssertionError
     \<longleftrightarrow> max_frame_diff > int (dim1 data) - int num_frames_in_stack"
  using assms
  by (auto simp: get_paired_data_def Let_def load_object_no_assert generate_pairs_no_assert
        split: sum.splits)

theorem assertion_iff_max_diff_too_large_witness:
  "load_data ''/p'' ''data'' ''seq.npy'' example_world = Inr example_data \<and>
   max_frame_diff_of [[0], [5]] = Inr 5 \<and>
   (5::int) > int (dim1 example_data) - int 1 \<and>
   get_paired_data counter_rnd ''/p'' ''data'' ''plots'' ''seq.npy'' [[0], [5]] 1 1 1 True
     example_world = Inl AssertionError"
  using assertion_iff_max_diff_too_large [OF example_load example_max_too_large,
      of counter_rnd "''plots''" 1 1 1 True]
  by (simp add: example_load example_max_too_large example_dim1)

text \<open>
  Claim C10. The assertion comes before the cache is looked at: for a configuration with
  \<^verbatim>\<open>max_frame_diff > num_total_frames - num_frames_in_stack\<close> the call raises
  \<^verbatim>\<open>AssertionError\<close> also when both cache files exist and \<^verbatim>\<open>force\<close> is false, so no
  cached result is returned.
\<close>

theorem assertion_precedes_cache:
  assumes "load_data project_dir data_dir filename w = Inr data"
    and "max_frame_diff_of time_buckets = Inr max_frame_diff"
    and "max_frame_diff > int (dim1 data) - int num_frames_in_stack"
    and "\<not> force"
    and "path_exists w (X_path_of project_dir data_dir filename)"
    and "path_exists w (y_path_of project_dir data_dir filename)"
  shows "get_paired_data rnd project_dir data_dir plots_dir filename time_buckets
           num_passes_for_generation num_pairs_per_example num_frames_in_stack force w
         = Inl AssertionError"
  using assms by (simp add: get_paired_data_def)

theorem assertion_precedes_cache_witness:
  "load_data ''/p'' ''data'' ''seq.npy'' cached_world = Inr example_data \<and>
   max_frame_diff_of [[0], [5]] = Inr 5 \<and>
   (5::int) > int (dim1 example_data) - int 1 \<and>
   \<not> False \<and>
   path_exists cached_world (X_path_of ''/p'' ''data'' ''seq.npy'') \<and>
   path_exists cached_world (y_path_of ''/p'' ''data'' ''seq.npy'') \<and>
   get_paired_data counter_rnd ''/p'' ''data'' ''plots'' ''seq.npy'' [[0], [5]] 1 1 1 False
     cached_world = Inl AssertionError"
proof -
  have big: "(5::int) > int (dim1 example_data) - int 1"
    by (simp add: example_dim1)
  have X: "path_exists cached_world (X_path_of ''/p'' ''data'' ''seq.npy'')"
    by (simp add: path_exists_def example_X_path cached_X)
  have y: "path_exists cached_world (y_path_of ''/p'' ''data'' ''seq.npy'')"
    by (simp add: path_exists_def example_y_path cached_y)
  have "\<not> False"
    by simp
  from assertion_precedes_cache [OF cached_load example_max_too_large big this X y,
      of counter_rnd "''plots''" 1 1]
  show ?thesis
    using cached_load example_max_too_large big X y by simp
qed

subsection \<open>The cache\<close>

text \<open>
  Claim C7, as the spec states it: when both cache files exist and \<^verbatim>\<open>force\<close> is false,
  the arrays of the cache are returned. It fails where the assertion fails: here both
  cache files exist and can be loaded, \<^verbatim>\<open>force\<close> is false, the stacks have three frames
  and the video has three, and the call raises instead of returning the cache.
\<close>

theorem cache_hit_counterexample:
  "load_object (X_path_of ''/p'' ''data'' ''seq.npy'') cached_world = Inr (PairsArray example_X) \<and>
   load_object (y_path_of ''/p'' ''data'' ''seq.npy'') cached_world = Inr (LabelsArray example_y) \<and>
   get_paired_data counter_rnd ''/p'' ''data'' ''plots'' ''seq.npy'' [[0], [1]] 1 1 3 False
     cached_world = Inl AssertionError"
  by (simp add: get_paired_data_def cached_load example_max example_dim1 load_object_def
      example_X_path example_y_path cached_X cached_y)

text \<open>
  Claim C7, amended. When the dataset file loads, the time buckets pass the assertion,
  both cache files hold pickled objects and \<^verbatim>\<open>force\<close> is false, \<^verbatim>\<open>get_paired_data\<close>
  returns the two cached objects and leaves the files and the generator as they were
  (nothing is generated). The cache paths are functions of the project directory, the
  data directory and the file name only, and the result is the same for every number of
  passes, number of pairs, stack length and list of buckets that pass the assertion.
\<close>

theorem cache_hit_returns_cache:
  assumes "load_data project_dir data_dir filename w = Inr data"
    and "max_frame_diff_of time_buckets = Inr max_frame_diff"
    and "max_frame_diff \<le> int (dim1 data) - int num_frames_in_stack"
    and "\<not> force"
    and "files w (X_path_of project_dir data_dir filename) = Some (PickleFile X)"
    and "files w (y_path_of project_dir data_dir filename) = Some (PickleFile y)"
  shows "get_paired_data rnd project_dir data_dir plots_dir filename time_buckets
           num_passes_for_generation num_pairs_per_example num_frames_in_stack force w
         = Inr ((X, y), w)"
  using assms by (simp add: get_paired_data_def path_exists_def load_object_def)

theorem cache_hit_returns_cache_witness:
  "load_data ''/p'' ''data'' ''seq.npy'' cached_world = Inr example_data \<and>
   max_frame_diff_of [[0], [1]] = Inr 1 \<and>
   (1::int) \<le> int (dim1 example_data) - int 2 \<and>
   \<not> False \<and>
   files cached_world (X_path_of ''/p'' ''data'' ''seq.npy'')
     = Some (PickleFile (PairsArray example_X)) \<and>
   files cached_world (y_path_of ''/p'' ''data'' ''seq.npy'')
     = Some (PickleFile (LabelsArray example_y)) \<and>
   get_paired_data counter_rnd ''/p'' ''data'' ''plots'' ''seq.npy'' [[0], [1]] 5 7 2 False
     cached_world = Inr ((PairsArray example_X, LabelsArray example_y), cached_world)"
proof -
  have ok: "(1::int) \<le> int (dim1 example_data) - int 2"
    by (simp add: example_dim1)
  have X: "files cached_world (X_path_of ''/p'' ''data'' ''seq.npy'')
             = Some (PickleFile (PairsArray example_X))"
    by (simp add: example_X_path cached_X)
  have y: "files cached_world (y_path_of ''/p'' ''data'' ''seq.npy'')
             = Some (PickleFile (LabelsArray example_y))"
    by (simp add: example_y_path cached_y)
  have "\<not> False"
    by simp
  from cache_hit_returns_cache [OF cached_load example_max ok this X y,
      of counter_rnd "''plots''" 5 7]
  show ?thesis
    using cached_load example_max ok X y by simp
qed

subsection \<open>The samples of one difference\<close>

lemma np_take_length: "np_take row idxs = Inr s \<Longrightarrow> length s = length idxs"
  by (auto simp: np_take_def Let_def split: if_splits)

lemma length_stack_range: "length [l - int nfs + 1 .. l] = nfs"
  by simp

lemma np_take_upto_slice:
  assumes "0 \<le> lo" and "np_take row [lo .. hi] = Inr s"
  shows "s = take (nat (hi - lo + 1)) (drop (nat lo) row)"
proof (rule nth_equalityI)
  from assms(2) have all: "list_all (\<lambda>i. - int (length row) \<le> i \<and> i < int (length row)) [lo .. hi]"
    and s: "s = map (\<lambda>i. row ! nat (if i < 0 then i + int (length row) else i)) [lo .. hi]"
    by (auto simp: np_take_def Let_def split: if_splits)
  have hi: "hi < int (length row)" if "lo \<le> hi"
    using all that by (auto simp: list_all_iff)
  show len: "length s = length (take (nat (hi - lo + 1)) (drop (nat lo) row))"
    using s hi assms(1) by (cases "lo \<le> hi") auto
  fix k
  assume k: "k < length s"
  then have k': "lo + int k \<le> hi"
    using s by simp
  then have "lo \<le> hi"
    by simp
  from k have "s ! k = row ! nat (lo + int k)"
    using s k' assms(1) by simp
  also have "\<dots> = take (nat (hi - lo + 1)) (drop (nat lo) row) ! k"
    using k len hi [OF \<open>lo \<le> hi\<close>] assms(1) k'
    by (simp add: nat_add_distrib)
  finally show "s ! k = take (nat (hi - lo + 1)) (drop (nat lo) row) ! k" .
qed

lemma np_take_stack_slice:
  "0 \<le> l - int nfs + 1 \<Longrightarrow> np_take row [l - int nfs + 1 .. l] = Inr s \<Longrightarrow>
   s = take nfs (drop (nat (l - int nfs + 1)) row)"
  using np_take_upto_slice [of "l - int nfs + 1" row l s] by simp

lemma make_sample_Inr:
  "make_sample row i cands nfs tbd d = Inr pb \<Longrightarrow> sample_indexed cands nfs tbd d (row, i) pb"
  unfolding make_sample_def sample_indexed_def Let_def
  by (auto split: if_splits sum.splits option.splits dest: np_take_length)

lemma idx_pairs_loop_Inr:
  "idx_pairs_loop row is cands nfs tbd d acc = Inr acc' \<Longrightarrow>
   \<exists>ps bs. acc' = (fst acc @ ps, snd acc @ bs) \<and> length ps = length is \<and>
     length bs = length is \<and>
     list_all2 (sample_indexed cands nfs tbd d) (map (Pair row) is) (zip ps bs)"
proof (induction "is" arbitrary: acc)
  case Nil
  then show ?case by simp
next
  case (Cons i "is")
  from Cons.prems obtain pair bucket where
    ms: "make_sample row i cands nfs tbd d = Inr (pair, bucket)"
    and rest: "idx_pairs_loop row is cands nfs tbd d (fst acc @ [pair], snd acc @ [bucket]) = Inr acc'"
    by (auto split: sum.splits)
  from Cons.IH [OF rest] obtain ps bs where
    acc': "acc' = ((fst acc @ [pair]) @ ps, (snd acc @ [bucket]) @ bs)"
    and len: "length ps = length is" "length bs = length is"
    and all: "list_all2 (sample_indexed cands nfs tbd d) (map (Pair row) is) (zip ps bs)"
    by auto
  have "acc' = (fst acc @ (pair # ps), snd acc @ (bucket # bs))"
    using acc' by simp
  moreover have "list_all2 (sample_indexed cands nfs tbd d) (map (Pair row) (i # is))
                   (zip (pair # ps) (bucket # bs))"
    using all make_sample_Inr [OF ms] by simp
  ultimately show ?case
    using len by (intro exI [of _ "pair # ps"] exI [of _ "bucket # bs"]) simp
qed

lemma rows_loop_Inr:
  "rows_loop rs is cands nfs tbd d acc = Inr acc' \<Longrightarrow>
   \<exists>ps bs. acc' = (fst acc @ ps, snd acc @ bs) \<and> length ps = length rs * length is \<and>
     length bs = length ps \<and>
     list_all2 (sample_indexed cands nfs tbd d) (List.product rs is) (zip ps bs)"
proof (induction rs arbitrary: acc)
  case Nil
  then show ?case by simp
next
  case (Cons row rs)
  from Cons.prems obtain acc1 where
    inner: "idx_pairs_loop row is cands nfs tbd d acc = Inr acc1"
    and rest: "rows_loop rs is cands nfs tbd d acc1 = Inr acc'"
    by (auto split: sum.splits)
  from idx_pairs_loop_Inr [OF inner] obtain ps1 bs1 where
    acc1: "acc1 = (fst acc @ ps1, snd acc @ bs1)"
    and len1: "length ps1 = length is" "length bs1 = length is"
    and all1: "list_all2 (sample_indexed cands nfs tbd d) (map (Pair row) is) (zip ps1 bs1)"
    by blast
  from Cons.IH [OF rest] obtain ps2 bs2 where
    acc': "acc' = (fst acc1 @ ps2, snd acc1 @ bs2)"
    and len2: "length ps2 = length rs * length is" "length bs2 = length ps2"
    and all2: "list_all2 (sample_indexed cands nfs tbd d) (List.product rs is) (zip ps2 bs2)"
    by blast
  have "acc' = (fst acc @ (ps1 @ ps2), snd acc @ (bs1 @ bs2))"
    using acc' acc1 by simp
  moreover have "list_all2 (sample_indexed cands nfs tbd d) (List.product (row # rs) is)
                   (zip (ps1 @ ps2) (bs1 @ bs2))"
    using all1 all2 len1 by (simp add: list_all2_appendI)
  ultimately show ?case
    using len1 len2
    by (intro exI [of _ "ps1 @ ps2"] exI [of _ "bs1 @ bs2"]) simp
qed

text \<open>A sample indexed at candidates that leave room for the stack is made of runs.\<close>

lemma sample_indexed_run:
  assumes "candidates_allow_stack nfs candidates"
    and "sample_indexed candidates nfs tbd d ri pb"
  shows "sample_is_run candidates nfs tbd d ri pb"
proof -
  let ?c = "candidates ! snd ri"
  from assms(2) have idx: "snd ri < length candidates"
    and t1: "np_take (fst ri) [fst ?c - int nfs + 1 .. fst ?c] = Inr (fst (fst pb))"
    and t2: "np_take (fst ri) [snd ?c - int nfs + 1 .. snd ?c] = Inr (snd (fst pb))"
    and len: "length (fst (fst pb)) = nfs" "length (snd (fst pb)) = nfs"
    and lab: "tbd d = Some (snd pb)"
    by (simp_all add: sample_indexed_def Let_def)
  from assms(1) idx have "int nfs - 1 \<le> fst ?c \<and> int nfs - 1 \<le> snd ?c"
    by (simp add: candidates_allow_stack_def list_all_length)
  then have lo: "0 \<le> fst ?c - int nfs + 1" "0 \<le> snd ?c - int nfs + 1"
    by simp_all
  from np_take_stack_slice [OF lo(1) t1] np_take_stack_slice [OF lo(2) t2] idx lo len lab
  show ?thesis
    by (simp add: sample_is_run_def Let_def)
qed

text \<open>The candidates that \<^verbatim>\<open>get_frame_differences_dict\<close> builds leave room for the stack.\<close>

lemma frame_pairs_while_allows_stack:
  "(\<forall>k l. dd k = Some l \<longrightarrow> candidates_allow_stack nfs l) \<Longrightarrow> int nfs - 1 \<le> s \<Longrightarrow> s \<le> e \<Longrightarrow>
   frame_pairs_while n diff s e dd k = Some l \<Longrightarrow> candidates_allow_stack nfs l"
proof (induction n diff s e dd rule: frame_pairs_while.induct)
  case (1 n diff s e dd)
  show ?case
  proof (cases "e \<le> int n - 1")
    case True
    let ?dd = "dd(diff \<mapsto> (case dd diff of None \<Rightarrow> [] | Some l \<Rightarrow> l) @ [(s, e)])"
    have upd: "\<forall>k l. ?dd k = Some l \<longrightarrow> candidates_allow_stack nfs l"
      using "1.prems"(1,2,3)
      by (auto simp: candidates_allow_stack_def split: option.splits)
    have res: "frame_pairs_while n diff (s + 1) (e + 1) ?dd k = Some l"
      using "1.prems"(4) True by (subst (asm) frame_pairs_while.simps) (simp only: if_True)
    have "int nfs - 1 \<le> s + 1" and "s + 1 \<le> e + 1"
      using "1.prems"(2,3) by simp_all
    with "1.IH" [OF True upd _ _ res] show ?thesis
      by blast
  next
    case False
    with "1.prems"(4) have "dd k = Some l"
      by (subst (asm) frame_pairs_while.simps) simp
    with "1.prems"(1) show ?thesis
      by blast
  qed
qed

lemma frame_differences_for_allows_stack:
  "(\<forall>k l. dd k = Some l \<longrightarrow> candidates_allow_stack nfs l) \<Longrightarrow> \<forall>diff \<in> set ds. 0 \<le> diff \<Longrightarrow>
   frame_differences_for n nfs ds dd k = Some l \<Longrightarrow> candidates_allow_stack nfs l"
proof (induction ds arbitrary: dd)
  case Nil
  then show ?case by simp
next
  case (Cons diff ds)
  let ?dd = "frame_pairs_while n diff (int nfs - 1) (int nfs - 1 + diff) dd"
  have "\<forall>k l. ?dd k = Some l \<longrightarrow> candidates_allow_stack nfs l"
    using frame_pairs_while_allows_stack [OF Cons.prems(1), of "int nfs - 1" "int nfs - 1 + diff" n diff]
      Cons.prems(2)
    by simp
  from Cons.IH [OF this] Cons.prems(2,3) show ?case
    by simp
qed

lemma get_frame_differences_dict_allows_stack:
  "get_frame_differences_dict n m nfs d = Some l \<Longrightarrow> candidates_allow_stack nfs l"
  unfolding get_frame_differences_dict_def
  by (rule frame_differences_for_allows_stack [of Map.empty nfs "[0 .. m]" n d l]) simp_all

text \<open>
  Claim C5, as the spec states it, for every sample that is emitted. It fails for a
  candidate whose index is smaller than \<^verbatim>\<open>num_frames_in_stack - 1\<close>: with stacks of two
  frames and the candidate \<^verbatim>\<open>(0, 1)\<close> the first stack is indexed by \<^verbatim>\<open>[-1, 0]\<close>, numpy
  reads index \<^verbatim>\<open>-1\<close> from the end of the row, and the stack is the last frame followed
  by the first, which is neither of the two runs of two consecutive frames of the row.
\<close>

theorem samples_are_stacks_with_bucket_counterexample:
  "get_samples_at_difference counter_rnd example_data 1 [1 \<mapsto> [(0, 1)]] 1 2 [1 \<mapsto> 1] 0
     = Inr ((\<lparr>shape = [1, 2, 2, 2, 2], items = [([12, 10], [10, 11])]\<rparr>, [1]), 1338) \<and>
   rows example_data = [[10, 11, 12]] \<and>
   [12, 10] \<noteq> take 2 (drop 0 [10, 11, 12 :: nat]) \<and>
   [12, 10] \<noteq> take 2 (drop 1 [10, 11, 12 :: nat])"
  by (simp add: get_samples_at_difference_def select_idx_pairs_def np_random_choice_def
      counter_rnd_def example_data_def make_sample_def np_take_def upto.simps
      np_array_pairs_def)

text \<open>
  Claim C5, amended. When both indices of every candidate pair of the difference \<^verbatim>\<open>d\<close>
  are at least \<^verbatim>\<open>num_frames_in_stack - 1\<close>, as they are in the dictionary that
  \<^verbatim>\<open>get_frame_differences_dict\<close> builds, and \<^verbatim>\<open>get_samples_at_difference\<close> returns, its
  samples are, in order, one for every row and every selected position; each of the two
  stacks of a sample is the contiguous run of exactly \<^verbatim>\<open>num_frames_in_stack\<close> frames of
  the row from index \<^verbatim>\<open>last - num_frames_in_stack + 1\<close> to index \<^verbatim>\<open>last\<close>, where \<^verbatim>\<open>last\<close>
  is the corresponding index of the selected candidate pair, and the label is
  \<^verbatim>\<open>time_buckets_dict[d]\<close>.
\<close>

theorem samples_are_stacks_with_bucket:
  assumes "get_samples_at_difference rnd data d differences_dict num_pairs_per_example
             num_frames_in_stack time_buckets_dict g = Inr ((video_pairs, y), g')"
    and "differences_dict d = Some candidates"
    and "candidates_allow_stack num_frames_in_stack candidates"
  shows "\<exists>idx_pairs.
           select_idx_pairs rnd g candidates num_pairs_per_example = Inr (idx_pairs, g') \<and>
           length y = length (items video_pairs) \<and>
           list_all2 (sample_is_run candidates num_frames_in_stack time_buckets_dict d)
             (List.product (rows data) idx_pairs) (zip (items video_pairs) y)"
proof -
  from assms(1,2) obtain idx_pairs ps bs where
    s: "select_idx_pairs rnd g candidates num_pairs_per_example = Inr (idx_pairs, g')"
    and r: "rows_loop (rows data) idx_pairs candidates num_frames_in_stack time_buckets_dict d
              ([], []) = Inr (ps, bs)"
    and v: "video_pairs = np_array_pairs (frame_shape data) ps" and y: "y = bs"
    by (auto simp: get_samples_at_difference_def split: sum.splits prod.splits)
  have it: "items (np_array_pairs (frame_shape data) ps) = ps"
    by (simp add: np_array_pairs_def np_empty_def split: list.splits)
  from rows_loop_Inr [OF r] have len: "length bs = length ps"
    and all: "list_all2 (sample_indexed candidates num_frames_in_stack time_buckets_dict d)
                (List.product (rows data) idx_pairs) (zip ps bs)"
    by auto
  from all have "list_all2 (sample_is_run candidates num_frames_in_stack time_buckets_dict d)
                   (List.product (rows data) idx_pairs) (zip ps bs)"
    by (rule list_all2_mono) (rule sample_indexed_run [OF assms(3)])
  with s len it v y show ?thesis
    by auto
qed

lemma gsad_example:
  "get_samples_at_difference counter_rnd example_data 1 [1 \<mapsto> [(1, 2)]] 1 2 [1 \<mapsto> 1] 0
   = Inr ((\<lparr>shape = [1, 2, 2, 2, 2], items = [([10, 11], [11, 12])]\<rparr>, [1]), 1338)"
  by (simp add: get_samples_at_difference_def select_idx_pairs_def np_random_choice_def
      counter_rnd_def example_data_def make_sample_def np_take_def upto.simps
      np_array_pairs_def)

theorem samples_are_stacks_with_bucket_witness:
  "get_samples_at_difference counter_rnd example_data 1 [1 \<mapsto> [(1, 2)]] 1 2 [1 \<mapsto> 1] 0
     = Inr ((\<lparr>shape = [1, 2, 2, 2, 2], items = [([10, 11], [11, 12])]\<rparr>, [1]), 1338) \<and>
   [1 \<mapsto> [(1, 2)]] (1::int) = Some [(1, 2)] \<and>
   candidates_allow_stack 2 [(1, 2)] \<and>
   list_all2 (sample_is_run [(1, 2)] 2 [1 \<mapsto> 1] 1)
     (List.product (rows example_data) [0]) (zip [([10, 11], [11, 12])] [1])"
proof -
  have c: "[1 \<mapsto> [(1, 2)]] (1::int) = Some [(1, 2)]"
    by simp
  have al: "candidates_allow_stack 2 [(1, 2)]"
    by (simp add: candidates_allow_stack_def)
  from samples_are_stacks_with_bucket [OF gsad_example c al] obtain idx_pairs where
    s: "select_idx_pairs counter_rnd 0 [(1, 2)] 1 = Inr (idx_pairs, 1338)"
    and a: "list_all2 (sample_is_run [(1, 2)] 2 [1 \<mapsto> 1] 1)
              (List.product (rows example_data) idx_pairs) (zip [([10, 11], [11, 12])] [1])"
    by auto
  from s have "idx_pairs = [0]"
    by (simp add: select_idx_pairs_def np_random_choice_def counter_rnd_def)
  with a c al gsad_example show ?thesis
    by simp
qed

subsection \<open>Determinism of the sampling\<close>

lemma select_idx_pairs_reseeded:
  "length candidates1 = length candidates2 \<Longrightarrow>
   select_idx_pairs rnd g1 candidates1 n = select_idx_pairs rnd g2 candidates2 n"
  by (simp add: select_idx_pairs_def)

text \<open>
  Claim C8. \<^verbatim>\<open>get_samples_at_difference\<close> reseeds the generator with 1337 before it
  draws: its result (the samples, the labels and the state in which it leaves the
  generator) is the same whatever the state of the generator at the call, and two calls
  with candidate lists of the same length and the same number of pairs select the same
  positions, whatever the differences.
\<close>

theorem sampling_ignores_generator_state:
  "get_samples_at_difference rnd data d dd n nfs tbd g1
     = get_samples_at_difference rnd data d dd n nfs tbd g2 \<and>
   (length candidates1 = length candidates2 \<longrightarrow>
      select_idx_pairs rnd g1 candidates1 n = select_idx_pairs rnd g2 candidates2 n)"
proof
  show "get_samples_at_difference rnd data d dd n nfs tbd g1
          = get_samples_at_difference rnd data d dd n nfs tbd g2"
  proof (cases "dd d")
    case None
    then show ?thesis
      by (simp add: get_samples_at_difference_def)
  next
    case (Some candidates)
    have "select_idx_pairs rnd g1 candidates n = select_idx_pairs rnd g2 candidates n"
      by (rule select_idx_pairs_reseeded) simp
    with Some show ?thesis
      by (simp add: get_samples_at_difference_def)
  qed
next
  show "length candidates1 = length candidates2 \<longrightarrow>
      select_idx_pairs rnd g1 candidates1 n = select_idx_pairs rnd g2 candidates2 n"
    by (simp add: select_idx_pairs_reseeded)
qed

theorem sampling_ignores_generator_state_witness:
  "length [(0, 0), (1, 1::int)] = length [(0, 1), (1, 2::int)] \<and>
   select_idx_pairs counter_rnd 0 [(0, 0), (1, 1)] 1 = Inr ([1], 1338) \<and>
   select_idx_pairs counter_rnd 99 [(0, 1), (1, 2)] 1 = Inr ([1], 1338)"
proof -
  have l: "length [(0, 0), (1, 1::int)] = length [(0, 1), (1, 2::int)]"
    by simp
  have s: "select_idx_pairs counter_rnd 99 [(0, 1), (1, 2)] 1 = Inr ([1], 1338)"
    by (simp add: select_idx_pairs_def np_random_choice_def counter_rnd_def
        numeral_2_eq_2 [symmetric])
  from sampling_ignores_generator_state [of counter_rnd example_data 0 Map.empty 1 0 Map.empty 0 99
      "[(0, 0), (1, 1)]" "[(0, 1), (1, 2)]"] l
  have "select_idx_pairs counter_rnd 0 [(0, 0), (1, 1)] 1
          = select_idx_pairs counter_rnd 99 [(0, 1), (1, 2)] 1"
    by blast
  with l s show ?thesis
    by simp
qed

subsection \<open>The shapes of the generated arrays\<close>

text \<open>Swapping the axes of a rectangular array gives a rectangular array, transposed.\<close>

lemma swapaxes01_wf: "wf_video_array a \<Longrightarrow> wf_video_array (swapaxes01 a)"
  by (simp add: wf_video_array_def swapaxes01_def list_all_iff)

lemma swapaxes01_nth:
  "wf_video_array a \<Longrightarrow> i < dim1 a \<Longrightarrow> j < dim0 a \<Longrightarrow>
   rows (swapaxes01 a) ! i ! j = rows a ! j ! i"
  by (simp add: wf_video_array_def swapaxes01_def)

text \<open>
  Without a pass nothing is sampled and \<^verbatim>\<open>X\<close> stays \<^verbatim>\<open>np.array([])\<close>, of shape
  \<^verbatim>\<open>(0,)\<close>: the shape has five axes only when there is a sample.
\<close>

lemma generate_pairs_no_pass:
  "[] \<notin> set time_buckets \<Longrightarrow>
   generate_pairs rnd data time_buckets m 0 npp nfs g = Inr (np_empty, [], g)"
  by (simp add: generate_pairs_def)

lemma np_empty_shape: "shape (np_empty :: 'f pairs_array) = [0]"
  by (simp add: np_empty_def)

lemma select_idx_pairs_length:
  assumes "draw_ok rnd" and "select_idx_pairs rnd g candidates n = Inr (idx_pairs, g')"
  shows "length idx_pairs = n"
proof -
  from assms(2) have "draw rnd (seed rnd 1337) (length candidates) n = (idx_pairs, g')"
    by (simp add: select_idx_pairs_def np_random_choice_def split: if_splits)
  then have "idx_pairs = fst (draw rnd (seed rnd 1337) (length candidates) n)"
    by simp
  with assms(1) show ?thesis
    by (simp add: draw_ok_def)
qed

lemma np_array_pairs_holds:
  assumes "length bs = length ps"
    and "list_all2 (sample_indexed cands nfs tbd d) ris (zip ps bs)"
  shows "holds_samples fshape nfs (length ps) (np_array_pairs fshape ps) bs"
proof (cases ps)
  case Nil
  with assms(1) show ?thesis
    by (simp add: holds_samples_def np_array_pairs_def np_empty_def)
next
  case (Cons p ps')
  with assms(1) obtain b bs' where bs: "bs = b # bs'"
    by (cases bs) auto
  from assms(2) Cons bs obtain ri where "sample_indexed cands nfs tbd d ri (p, b)"
    by (auto simp: list_all2_Cons2)
  then have "length (fst p) = nfs"
    by (simp add: sample_indexed_def Let_def)
  with assms(1) Cons show ?thesis
    by (simp add: holds_samples_def np_array_pairs_def)
qed

lemma get_samples_at_difference_holds:
  assumes "draw_ok rnd"
    and "get_samples_at_difference rnd data d dd npp nfs tbd g = Inr ((video_pairs, y), g')"
  shows "holds_samples (frame_shape data) nfs (length (rows data) * npp) video_pairs y"
proof -
  from assms(2) obtain candidates idx_pairs ps bs where
    s: "select_idx_pairs rnd g candidates npp = Inr (idx_pairs, g')"
    and r: "rows_loop (rows data) idx_pairs candidates nfs tbd d ([], []) = Inr (ps, bs)"
    and v: "video_pairs = np_array_pairs (frame_shape data) ps" and y: "y = bs"
    by (auto simp: get_samples_at_difference_def split: option.splits sum.splits prod.splits)
  from rows_loop_Inr [OF r] have
    len: "length ps = length (rows data) * length idx_pairs" "length bs = length ps"
    and all: "list_all2 (sample_indexed candidates nfs tbd d) (List.product (rows data) idx_pairs)
                (zip ps bs)"
    by auto
  from np_array_pairs_holds [OF len(2) all]
  show ?thesis
    using len(1) select_idx_pairs_length [OF assms(1) s] v y by simp
qed


lemma stack_step_holds:
  assumes "holds_samples fshape nfs k X y" and "holds_samples fshape nfs n V t"
    and "0 < n" and "0 < nfs" and "0 < prod_list fshape"
    and "(if np_size X \<noteq> 0 then np_vstack X V else Inr V) = Inr X'"
  shows "holds_samples fshape nfs (k + n) X' (y @ t)"
proof (cases "k = 0")
  case True
  with assms(1) have "np_size X = 0"
    by (simp add: holds_samples_def np_size_def)
  with assms(6) have "X' = V"
    by simp
  with assms(1,2) True show ?thesis
    by (simp add: holds_samples_def)
next
  case False
  with assms(1,4,5) have "np_size X \<noteq> 0"
    by (simp add: holds_samples_def np_size_def)
  with assms(6) have "np_vstack X V = Inr X'"
    by simp
  with assms(1,2,3) False show ?thesis
    by (auto simp: holds_samples_def np_vstack_def)
qed

lemma differences_loop_holds:
  assumes "draw_ok rnd" and "0 < length (rows data) * npp" and "0 < nfs"
    and "0 < prod_list (frame_shape data)"
  shows "differences_loop rnd data ds dd npp nfs tbd (X, y, g) = Inr (X', y', g') \<Longrightarrow>
         holds_samples (frame_shape data) nfs k X y \<Longrightarrow>
         holds_samples (frame_shape data) nfs (k + length (rows data) * npp * length ds) X' y'"
proof (induction ds arbitrary: X y g k)
  case Nil
  then show ?case by simp
next
  case (Cons d ds)
  from Cons.prems(1) obtain V t g1 X1 where
    gs: "get_samples_at_difference rnd data d dd npp nfs tbd g = Inr ((V, t), g1)"
    and st: "(if np_size X \<noteq> 0 then np_vstack X V else Inr V) = Inr X1"
    and rest: "differences_loop rnd data ds dd npp nfs tbd (X1, y @ t, g1) = Inr (X', y', g')"
    by (auto split: sum.splits prod.splits)
  have "holds_samples (frame_shape data) nfs (k + length (rows data) * npp) X1 (y @ t)"
    using stack_step_holds [OF Cons.prems(2) get_samples_at_difference_holds [OF assms(1) gs]
        assms(2,3,4) st] .
  from Cons.IH [OF rest this] show ?case
    by (simp add: algebra_simps)
qed

lemma passes_loop_holds:
  assumes "draw_ok rnd" and "0 < length (rows data) * npp" and "0 < nfs"
    and "0 < prod_list (frame_shape data)"
  shows "passes_loop rnd data ps m dd npp nfs tbd (X, y, g) = Inr (X', y', g') \<Longrightarrow>
         holds_samples (frame_shape data) nfs k X y \<Longrightarrow>
         holds_samples (frame_shape data) nfs
           (k + length (rows data) * npp * nat (m + 1) * length ps) X' y'"
proof (induction ps arbitrary: X y g k)
  case Nil
  then show ?case by simp
next
  case (Cons i ps)
  from Cons.prems(1) obtain X1 y1 g1 where
    d: "differences_loop rnd data [0 .. m] dd npp nfs tbd (X, y, g) = Inr (X1, y1, g1)"
    and rest: "passes_loop rnd data ps m dd npp nfs tbd (X1, y1, g1) = Inr (X', y', g')"
    by (auto split: sum.splits)
  from differences_loop_holds [OF assms d Cons.prems(2)]
  have "holds_samples (frame_shape data) nfs (k + length (rows data) * npp * nat (m + 1)) X1 y1"
    by simp
  from Cons.IH [OF rest this] show ?case
    by (simp add: algebra_simps)
qed

lemma generate_pairs_holds:
  assumes "draw_ok rnd" and "0 < length (rows data) * npp" and "0 < nfs"
    and "0 < prod_list (frame_shape data)"
    and "generate_pairs rnd data tb m num_passes npp nfs g = Inr (X, y, g')"
  shows "holds_samples (frame_shape data) nfs
           (length (rows data) * npp * nat (m + 1) * num_passes) X y"
proof -
  from assms(5) have
    p: "passes_loop rnd data [0 ..< num_passes] m
          (get_frame_differences_dict (dim1 data) m nfs) npp nfs (get_time_buckets_dict tb)
          (np_empty, [], g) = Inr (X, y, g')"
    by (simp add: generate_pairs_def Let_def split: if_splits)
  have "holds_samples (frame_shape data) nfs 0 np_empty []"
    by (simp add: holds_samples_def np_empty_def)
  from passes_loop_holds [OF assms(1-4) p this] show ?thesis
    by simp
qed

lemma load_data_rows:
  "load_data project_dir data_dir filename w = Inr data \<Longrightarrow> length (rows data) = dim0 data"
  by (auto simp: load_data_def swapaxes01_def split: option.splits disk_file.splits)

lemma get_paired_data_fresh:
  assumes "load_data project_dir data_dir filename w = Inr data"
    and "max_frame_diff_of time_buckets = Inr max_frame_diff"
    and "force \<or> \<not> path_exists w (X_path_of project_dir data_dir filename)
           \<or> \<not> path_exists w (y_path_of project_dir data_dir filename)"
    and "get_paired_data rnd project_dir data_dir plots_dir filename time_buckets
             num_passes_for_generation num_pairs_per_example num_frames_in_stack force w
           = Inr ((X, y), w')"
  shows "\<exists>Xa ya g'.
           generate_pairs rnd data time_buckets max_frame_diff num_passes_for_generation
             num_pairs_per_example num_frames_in_stack (rng w) = Inr (Xa, ya, g') \<and>
           X = PairsArray Xa \<and> y = LabelsArray ya \<and>
           max_frame_diff \<le> int (dim1 data) - int num_frames_in_stack \<and>
           w' = save_object (LabelsArray ya) (y_path_of project_dir data_dir filename)
                  (save_object (PairsArray Xa) (X_path_of project_dir data_dir filename)
                     (w\<lparr>rng := g'\<rparr>))"
proof -
  let ?gen = "generate_pairs rnd data time_buckets max_frame_diff num_passes_for_generation
                num_pairs_per_example num_frames_in_stack (rng w)"
  have ok: "max_frame_diff \<le> int (dim1 data) - int num_frames_in_stack"
    using assms(1,2,4) by (simp add: get_paired_data_def split: if_splits)
  have fresh: "\<not> (\<not> force \<and> path_exists w (X_path_of project_dir data_dir filename)
                  \<and> path_exists w (y_path_of project_dir data_dir filename))"
    using assms(3) by blast
  have eq: "(case ?gen of
              Inl e \<Rightarrow> Inl e
            | Inr (Xa, ya, g') \<Rightarrow>
                Inr ((PairsArray Xa, LabelsArray ya),
                     save_object (LabelsArray ya) (y_path_of project_dir data_dir filename)
                       (save_object (PairsArray Xa) (X_path_of project_dir data_dir filename)
                          (w\<lparr>rng := g'\<rparr>)))) = Inr ((X, y), w')"
    using assms(1,2,4) ok fresh by (simp add: get_paired_data_def Let_def)
  show ?thesis
  proof (cases ?gen)
    case (Inl e)
    with eq show ?thesis by simp
  next
    case (Inr r)
    obtain Xa ya g' where r: "r = (Xa, ya, g')"
      by (cases r)
    with Inr eq ok show ?thesis
      by auto
  qed
qed

text \<open>
  Claim C1, amended. A generation run of \<^verbatim>\<open>get_paired_data\<close> (no cache hit) that returns,
  with at least one video, one pass, one pair per example, one frame in a stack, frames
  that are not empty and a maximal difference that is not negative, returns \<^verbatim>\<open>X\<close> of
  shape \<^verbatim>\<open>(N, 2, stack_len) + frame_shape\<close>, which is \<^verbatim>\<open>(N, 2, stack_len, H, W)\<close> for frames
  of shape \<^verbatim>\<open>(H, W)\<close>, and \<^verbatim>\<open>y\<close> of shape \<^verbatim>\<open>(N,)\<close>, where
  \<^verbatim>\<open>N = num_videos * num_passes * (max_frame_diff + 1) * pairs_per_example\<close>: every pass
  samples every difference from 0 to \<^verbatim>\<open>max_frame_diff\<close>.
\<close>

theorem paired_data_shapes:
  assumes "get_paired_data rnd project_dir data_dir plots_dir filename time_buckets
             num_passes_for_generation num_pairs_per_example num_frames_in_stack force w
           = Inr ((X, y), w')"
    and "force \<or> \<not> path_exists w (X_path_of project_dir data_dir filename)
           \<or> \<not> path_exists w (y_path_of project_dir data_dir filename)"
    and "load_data project_dir data_dir filename w = Inr data"
    and "max_frame_diff_of time_buckets = Inr max_frame_diff"
    and "draw_ok rnd"
    and "0 < dim0 data" and "0 < num_passes_for_generation" and "0 < num_pairs_per_example"
    and "0 < num_frames_in_stack" and "0 < prod_list (frame_shape data)"
    and "0 \<le> max_frame_diff"
    and "N = dim0 data * num_passes_for_generation * nat (max_frame_diff + 1)
               * num_pairs_per_example"
  shows "\<exists>Xa ya. X = PairsArray Xa \<and> y = LabelsArray ya \<and>
           shape Xa = [N, 2, num_frames_in_stack] @ frame_shape data \<and>
           length (items Xa) = N \<and> length ya = N"
proof -
  from get_paired_data_fresh [OF assms(3,4,2,1)] obtain Xa ya g' where
    g: "generate_pairs rnd data time_buckets max_frame_diff num_passes_for_generation
          num_pairs_per_example num_frames_in_stack (rng w) = Inr (Xa, ya, g')"
    and X: "X = PairsArray Xa" and y: "y = LabelsArray ya"
    by blast
  have rows: "length (rows data) = dim0 data"
    using assms(3) by (rule load_data_rows)
  have pos: "0 < length (rows data) * num_pairs_per_example"
    using rows assms(6,8) by simp
  have N: "N = length (rows data) * num_pairs_per_example * nat (max_frame_diff + 1)
                 * num_passes_for_generation"
    using rows assms(12) by (simp add: algebra_simps)
  have "0 < N"
    using assms(6,7,8,11,12) by simp
  with generate_pairs_holds [OF assms(5) pos assms(9,10) g] N X y show ?thesis
    by (simp add: holds_samples_def)
qed

subsection \<open>A generation run, evaluated\<close>

lemma example_dd0: "get_frame_differences_dict 3 1 1 0 = Some [(0, 0), (1, 1), (2, 2)]"
  by (simp add: get_frame_differences_dict_def frame_pairs_while.simps upto.simps)

lemma example_dd1: "get_frame_differences_dict 3 1 1 1 = Some [(0, 1), (1, 2)]"
  by (simp add: get_frame_differences_dict_def frame_pairs_while.simps upto.simps)

lemma example_select0:
  "select_idx_pairs counter_rnd g [(0, 0), (1, 1), (2, 2)] 1 = Inr ([2], 1338)"
  by (simp add: select_idx_pairs_def np_random_choice_def counter_rnd_def
      numeral_3_eq_3 [symmetric])

lemma example_select1:
  "select_idx_pairs counter_rnd g [(0, 1), (1, 2)] 1 = Inr ([1], 1338)"
  by (simp add: select_idx_pairs_def np_random_choice_def counter_rnd_def
      numeral_2_eq_2 [symmetric])

lemma example_gsad0:
  "get_samples_at_difference counter_rnd example_data 0 (get_frame_differences_dict 3 1 1) 1 1
     (get_time_buckets_dict [[0], [1]]) g
   = Inr ((\<lparr>shape = [1, 2, 1, 2, 2], items = [([12], [12])]\<rparr>, [0]), 1338)"
  by (simp add: get_samples_at_difference_def example_dd0 [unfolded One_nat_def]
        example_select0 [unfolded One_nat_def] example_data_def make_sample_def np_take_def
        upto.simps get_time_buckets_dict_def np_array_pairs_def)

lemma example_gsad1:
  "get_samples_at_difference counter_rnd example_data 1 (get_frame_differences_dict 3 1 1) 1 1
     (get_time_buckets_dict [[0], [1]]) g
   = Inr ((\<lparr>shape = [1, 2, 1, 2, 2], items = [([11], [12])]\<rparr>, [1]), 1338)"
  by (simp add: get_samples_at_difference_def example_dd1 [unfolded One_nat_def]
        example_select1 [unfolded One_nat_def] example_data_def make_sample_def np_take_def
        upto.simps get_time_buckets_dict_def np_array_pairs_def)

lemma example_generate:
  "generate_pairs counter_rnd example_data [[0], [1]] 1 1 1 1 g = Inr (example_X, example_y, 1338)"
proof -
  have d: "dim1 example_data = 3"
    by (simp add: example_data_def)
  show ?thesis
    by (simp add: generate_pairs_def d upto.simps example_gsad0 [unfolded One_nat_def]
        example_gsad1 [unfolded One_nat_def] np_empty_def
        np_size_def np_vstack_def example_X_def example_y_def)
qed

lemma example_no_cache: "\<not> path_exists example_world ''/p/data/seq_X.pkl''"
  by (simp add: path_exists_def example_world_def)

lemma example_save:
  "save_object (LabelsArray example_y) ''/p/data/seq_y.pkl''
     (save_object (PairsArray example_X) ''/p/data/seq_X.pkl'' (example_world\<lparr>rng := 1338\<rparr>))
   = cached_world"
  by (simp add: save_object_def example_world_def cached_world_def)

lemma example_fresh:
  "get_paired_data counter_rnd ''/p'' ''data'' ''plots'' ''seq.npy'' [[0], [1]] 1 1 1 False example_world
   = Inr ((PairsArray example_X, LabelsArray example_y), cached_world)"
  by (simp add: get_paired_data_def example_load example_max example_dim1 example_X_path
      example_y_path example_no_cache example_generate [unfolded One_nat_def] example_save)


lemma counter_rnd_ok: "draw_ok counter_rnd"
  by (simp add: draw_ok_def counter_rnd_def list_all_iff)

text \<open>
  Claim C1, as the spec states it, with \<^verbatim>\<open>N = num_videos * num_passes * pairs_per_example\<close>.
  It fails for one video of three frames, one pass, one pair per example and the buckets
  \<^verbatim>\<open>[[0], [1]]\<close>: the product is 1, and the run returns two samples, one for each of the
  differences 0 and 1.
\<close>

theorem paired_data_shapes_counterexample:
  "\<not> path_exists example_world (X_path_of ''/p'' ''data'' ''seq.npy'') \<and>
   load_data ''/p'' ''data'' ''seq.npy'' example_world = Inr example_data \<and>
   get_paired_data counter_rnd ''/p'' ''data'' ''plots'' ''seq.npy'' [[0], [1]] 1 1 1 False
     example_world = Inr ((PairsArray example_X, LabelsArray example_y), cached_world) \<and>
   shape example_X \<noteq> [dim0 example_data * 1 * 1, 2, 1] @ frame_shape example_data \<and>
   length example_y \<noteq> dim0 example_data * 1 * 1"
  using example_fresh example_load example_no_cache
  by (simp add: example_X_path example_X_def example_y_def example_data_def)

theorem paired_data_shapes_witness:
  "get_paired_data counter_rnd ''/p'' ''data'' ''plots'' ''seq.npy'' [[0], [1]] 1 1 1 False
     example_world = Inr ((PairsArray example_X, LabelsArray example_y), cached_world) \<and>
   (False \<or> \<not> path_exists example_world (X_path_of ''/p'' ''data'' ''seq.npy'')
      \<or> \<not> path_exists example_world (y_path_of ''/p'' ''data'' ''seq.npy'')) \<and>
   load_data ''/p'' ''data'' ''seq.npy'' example_world = Inr example_data \<and>
   max_frame_diff_of [[0], [1]] = Inr 1 \<and>
   draw_ok counter_rnd \<and>
   0 < dim0 example_data \<and> (0::nat) < 1 \<and> 0 < prod_list (frame_shape example_data) \<and>
   (0::int) \<le> 1 \<and>
   (2::nat) = dim0 example_data * 1 * nat (1 + 1) * 1 \<and>
   shape example_X = [2, 2, 1] @ frame_shape example_data \<and>
   length (items example_X) = 2 \<and> length example_y = 2"
proof -
  have fresh: "False \<or> \<not> path_exists example_world (X_path_of ''/p'' ''data'' ''seq.npy'')
      \<or> \<not> path_exists example_world (y_path_of ''/p'' ''data'' ''seq.npy'')"
    using example_no_cache by (simp add: example_X_path)
  have d: "0 < dim0 example_data" and f: "0 < prod_list (frame_shape example_data)"
    and N: "(2::nat) = dim0 example_data * 1 * nat (1 + 1) * 1"
    by (simp_all add: example_data_def)
  have one: "(0::nat) < 1" and m: "(0::int) \<le> 1"
    by simp_all
  from paired_data_shapes [OF example_fresh fresh example_load example_max counter_rnd_ok d one one one f m N]
  have "shape example_X = [2, 2, 1] @ frame_shape example_data \<and>
        length (items example_X) = 2 \<and> length example_y = 2"
    by simp
  with example_fresh fresh example_load example_max counter_rnd_ok d one f m N
  show ?thesis
    by blast
qed

subsection \<open>The cache paths\<close>

lemma py_split_nonempty: "py_split c xs \<noteq> []"
  by (induction xs) auto

lemma py_split_no_sep: "p \<in> set (py_split c xs) \<Longrightarrow> c \<notin> set p"
proof (induction xs arbitrary: p)
  case Nil
  then show ?case by simp
next
  case (Cons x xs)
  show ?case
  proof (cases "x = c")
    case True
    with Cons show ?thesis by auto
  next
    case False
    with Cons.prems have "p = x # hd (py_split c xs) \<or> p \<in> set (tl (py_split c xs))"
      by simp
    moreover have "hd (py_split c xs) \<in> set (py_split c xs)"
      using py_split_nonempty by simp
    moreover have "set (tl (py_split c xs)) \<subseteq> set (py_split c xs)"
      by (cases "py_split c xs") auto
    ultimately show ?thesis
      using Cons.IH False by auto
  qed
qed

lemma py_join_Cons: "ps \<noteq> [] \<Longrightarrow> py_join sep (p # ps) = p @ sep @ py_join sep ps"
  by (cases ps) auto

lemma py_join_split: "py_join [c] (py_split c xs) = xs"
proof (induction xs)
  case Nil
  show ?case by simp
next
  case (Cons x xs)
  show ?case
  proof (cases "x = c")
    case True
    with Cons show ?thesis
      by (simp add: py_join_Cons py_split_nonempty)
  next
    case False
    obtain p ps where sp: "py_split c xs = p # ps"
      using py_split_nonempty by (cases "py_split c xs") auto
    with Cons False show ?thesis
      by (cases ps) auto
  qed
qed

lemma py_join_snoc: "ps \<noteq> [] \<Longrightarrow> py_join sep (ps @ [q]) = py_join sep ps @ sep @ q"
proof (induction ps)
  case Nil
  then show ?case by simp
next
  case (Cons p ps)
  then show ?case
    by (cases ps) auto
qed

lemma strip_extension_cases:
  "(strip_extension fn = [] \<and> CHR ''.'' \<notin> set fn) \<or>
   (\<exists>ext. fn = strip_extension fn @ CHR ''.'' # ext)"
proof -
  let ?sp = "py_split CHR ''.'' fn"
  have ne: "?sp \<noteq> []"
    by (rule py_split_nonempty)
  then have sp: "?sp = butlast ?sp @ [last ?sp]"
    by simp
  have fn: "fn = py_join ''.'' ?sp"
    by (simp add: py_join_split)
  show ?thesis
  proof (cases "butlast ?sp = []")
    case True
    with sp have one: "?sp = [last ?sp]"
      by simp
    then have "fn = last ?sp"
      using fn by (metis py_join.simps(2))
    moreover have "CHR ''.'' \<notin> set (last ?sp)"
      using py_split_no_sep [of "last ?sp" "CHR ''.''" fn] ne by simp
    ultimately show ?thesis
      using True by (simp add: strip_extension_def)
  next
    case False
    have "fn = py_join ''.'' (butlast ?sp @ [last ?sp])"
      using fn sp by simp
    also have "\<dots> = py_join ''.'' (butlast ?sp) @ ''.'' @ last ?sp"
      using False by (rule py_join_snoc)
    finally have "fn = strip_extension fn @ CHR ''.'' # last ?sp"
      by (simp add: strip_extension_def)
    then show ?thesis
      by blast
  qed
qed

lemma cache_name_differs:
  assumes "CHR ''.'' \<in> set rest"
  shows "strip_extension fn @ CHR ''_'' # rest \<noteq> fn"
proof
  assume eq: "strip_extension fn @ CHR ''_'' # rest = fn"
  from strip_extension_cases [of fn] show False
  proof
    assume "strip_extension fn = [] \<and> CHR ''.'' \<notin> set fn"
    with eq assms show False
      by auto
  next
    assume "\<exists>ext. fn = strip_extension fn @ CHR ''.'' # ext"
    then obtain ext where "fn = strip_extension fn @ CHR ''.'' # ext"
      by blast
    with eq have "strip_extension fn @ CHR ''_'' # rest = strip_extension fn @ CHR ''.'' # ext"
      by simp
    then show False
      by simp
  qed
qed

lemma path_join_step_eq:
  "path_join_step path b = (if is_abs b then b else with_sep path @ b)"
  by (simp add: path_join_step_def is_abs_def with_sep_def)

lemma os_path_join3:
  "os_path_join a [b, c] =
     (if is_abs c then c else with_sep (path_join_step a b) @ c)"
  by (simp add: os_path_join_def path_join_step_eq)

lemma cache_name_abs:
  "is_abs (strip_extension fn @ CHR ''_'' # rest) \<longleftrightarrow>
   strip_extension fn \<noteq> [] \<and> is_abs fn"
proof -
  from strip_extension_cases [of fn] show ?thesis
  proof
    assume "strip_extension fn = [] \<and> CHR ''.'' \<notin> set fn"
    then show ?thesis
      by (simp add: is_abs_def)
  next
    assume "\<exists>ext. fn = strip_extension fn @ CHR ''.'' # ext"
    then obtain ext where fn: "fn = strip_extension fn @ CHR ''.'' # ext"
      by blast
    show ?thesis
    proof (cases "strip_extension fn = []")
      case True
      then show ?thesis by (simp add: is_abs_def)
    next
      case False
      then have "hd fn = hd (strip_extension fn)"
        using fn by (metis hd_append2)
      moreover have "length fn = length (strip_extension fn) + 1 + length ext"
        using arg_cong [OF fn, of length] by simp
      then have "fn \<noteq> []"
        by auto
      ultimately show ?thesis
        using False by (simp add: is_abs_def)
    qed
  qed
qed

lemma data_path_not_cache_path:
  assumes "CHR ''.'' \<in> set rest"
  shows "os_path_join pd [dd, fn] \<noteq> os_path_join pd [dd, strip_extension fn @ CHR ''_'' # rest]"
proof (cases "is_abs fn")
  case True
  show ?thesis
  proof (cases "strip_extension fn = []")
    case True
    with strip_extension_cases [of fn] \<open>is_abs fn\<close> have "CHR ''.'' \<notin> set fn"
      by (auto simp: is_abs_def)
    moreover have "CHR ''.'' \<in> set (with_sep (path_join_step pd dd) @ CHR ''_'' # rest)"
      using assms by simp
    ultimately have "fn \<noteq> with_sep (path_join_step pd dd) @ CHR ''_'' # rest"
      by metis
    moreover have "os_path_join pd [dd, fn] = fn"
      using \<open>is_abs fn\<close> by (simp add: os_path_join3)
    moreover have "os_path_join pd [dd, strip_extension fn @ CHR ''_'' # rest]
                     = with_sep (path_join_step pd dd) @ CHR ''_'' # rest"
      using True cache_name_abs [of fn rest] by (simp add: os_path_join3)
    ultimately show ?thesis
      by simp
  next
    case False
    with \<open>is_abs fn\<close> cache_name_differs [OF assms, of fn] show ?thesis
      by (auto simp: os_path_join3 cache_name_abs)
  qed
next
  case False
  with cache_name_differs [OF assms, of fn] show ?thesis
    by (auto simp: os_path_join3 cache_name_abs)
qed

lemma data_path_not_X_path: "os_path_join pd [dd, fn] \<noteq> X_path_of pd dd fn"
  using data_path_not_cache_path [of "''X.pkl''" pd dd fn]
  by (simp add: X_path_of_def)

lemma data_path_not_y_path: "os_path_join pd [dd, fn] \<noteq> y_path_of pd dd fn"
  using data_path_not_cache_path [of "''y.pkl''" pd dd fn]
  by (simp add: y_path_of_def)

lemma X_path_not_y_path: "X_path_of pd dd fn \<noteq> y_path_of pd dd fn"
proof -
  have "is_abs (strip_extension fn @ ''_X.pkl'') \<longleftrightarrow> is_abs (strip_extension fn @ ''_y.pkl'')"
    using cache_name_abs [of fn "''X.pkl''"] cache_name_abs [of fn "''y.pkl''"] by simp
  then show ?thesis
    by (auto simp: X_path_of_def y_path_of_def os_path_join3)
qed

subsection \<open>The cache round trip\<close>

lemma load_data_files:
  "files w' (os_path_join pd [dd, fn]) = files w (os_path_join pd [dd, fn]) \<Longrightarrow>
   load_data pd dd fn w' = load_data pd dd fn w"
  by (simp add: load_data_def)

lemma get_paired_data_loaded:
  assumes "get_paired_data rnd pd dd pl fn tb np npp nfs force w = Inr r"
  shows "\<exists>data m. load_data pd dd fn w = Inr data \<and> max_frame_diff_of tb = Inr m"
proof (cases "load_data pd dd fn w")
  case (Inl e)
  with assms show ?thesis
    by (simp add: get_paired_data_def)
next
  case (Inr data)
  show ?thesis
  proof (cases "max_frame_diff_of tb")
    case (Inl e)
    with assms Inr show ?thesis
      by (simp add: get_paired_data_def)
  next
    case m: (Inr m)
    with Inr show ?thesis
      by simp
  qed
qed

text \<open>
  Claim C9. After a generation run of \<^verbatim>\<open>get_paired_data\<close> has returned \<^verbatim>\<open>(X, y)\<close> and
  saved them with \<^verbatim>\<open>save_object\<close>, \<^verbatim>\<open>load_object\<close> gives \<^verbatim>\<open>X\<close> and \<^verbatim>\<open>y\<close> back from
  the two cache paths, and a following call with the cache present returns the same
  \<^verbatim>\<open>(X, y)\<close>. The two cache paths differ from each other and from the path of the
  dataset file, so saving overwrites neither.
\<close>

theorem cache_round_trip:
  assumes "get_paired_data rnd project_dir data_dir plots_dir filename time_buckets
             num_passes_for_generation num_pairs_per_example num_frames_in_stack force w
           = Inr ((X, y), w')"
    and "force \<or> \<not> path_exists w (X_path_of project_dir data_dir filename)
           \<or> \<not> path_exists w (y_path_of project_dir data_dir filename)"
  shows "load_object (X_path_of project_dir data_dir filename) w' = Inr X \<and>
         load_object (y_path_of project_dir data_dir filename) w' = Inr y \<and>
         get_paired_data rnd project_dir data_dir plots_dir filename time_buckets
           num_passes_for_generation num_pairs_per_example num_frames_in_stack False w'
         = Inr ((X, y), w')"
proof -
  let ?Xp = "X_path_of project_dir data_dir filename"
  let ?yp = "y_path_of project_dir data_dir filename"
  let ?dp = "os_path_join project_dir [data_dir, filename]"
  from get_paired_data_loaded [OF assms(1)] obtain data m where
    ld: "load_data project_dir data_dir filename w = Inr data"
    and mx: "max_frame_diff_of time_buckets = Inr m"
    by blast
  from get_paired_data_fresh [OF ld mx assms(2,1)] obtain Xa ya g' where
    X: "X = PairsArray Xa" and y: "y = LabelsArray ya"
    and ok: "m \<le> int (dim1 data) - int num_frames_in_stack"
    and w': "w' = save_object y ?yp (save_object X ?Xp (w\<lparr>rng := g'\<rparr>))"
    by blast
  have fX: "files w' ?Xp = Some (PickleFile X)"
    using X_path_not_y_path [of project_dir data_dir filename]
    by (simp add: w' save_object_def)
  have fy: "files w' ?yp = Some (PickleFile y)"
    by (simp add: w' save_object_def)
  have "files w' ?dp = files w ?dp"
    using data_path_not_X_path [of project_dir data_dir filename]
      data_path_not_y_path [of project_dir data_dir filename]
    by (simp add: w' save_object_def)
  from load_data_files [OF this] ld
  have ld': "load_data project_dir data_dir filename w' = Inr data"
    by simp
  have lX: "load_object ?Xp w' = Inr X" and ly: "load_object ?yp w' = Inr y"
    using fX fy by (simp_all add: load_object_def)
  have "get_paired_data rnd project_dir data_dir plots_dir filename time_buckets
           num_passes_for_generation num_pairs_per_example num_frames_in_stack False w'
         = Inr ((X, y), w')"
    using ld' mx ok lX ly fX fy
    by (simp add: get_paired_data_def path_exists_def)
  with lX ly show ?thesis
    by simp
qed

theorem cache_round_trip_witness:
  "get_paired_data counter_rnd ''/p'' ''data'' ''plots'' ''seq.npy'' [[0], [1]] 1 1 1 False
     example_world = Inr ((PairsArray example_X, LabelsArray example_y), cached_world) \<and>
   (False \<or> \<not> path_exists example_world (X_path_of ''/p'' ''data'' ''seq.npy'')
      \<or> \<not> path_exists example_world (y_path_of ''/p'' ''data'' ''seq.npy'')) \<and>
   load_object ''/p/data/seq_X.pkl'' cached_world = Inr (PairsArray example_X) \<and>
   load_object ''/p/data/seq_y.pkl'' cached_world = Inr (LabelsArray example_y) \<and>
   get_paired_data counter_rnd ''/p'' ''data'' ''plots'' ''seq.npy'' [[0], [1]] 1 1 1 False
     cached_world = Inr ((PairsArray example_X, LabelsArray example_y), cached_world)"
proof -
  have fresh: "False \<or> \<not> path_exists example_world (X_path_of ''/p'' ''data'' ''seq.npy'')
      \<or> \<not> path_exists example_world (y_path_of ''/p'' ''data'' ''seq.npy'')"
    using example_no_cache by (simp add: example_X_path)
  from cache_round_trip [OF example_fresh fresh] example_fresh fresh show ?thesis
    by (simp add: example_X_path example_y_path)
qed

end
